theory Spec2Isabelle
  imports Main "HOL-Library.AList"
begin

section \<open>Data model\<close>

text \<open>
  The server keeps three JavaScript \<open>Map\<close>s. A \<open>Map\<close> iterates in insertion order,
  \<open>set\<close> on a present key replaces the value where it stands and on an absent key
  appends, \<open>delete\<close> removes the entry, \<open>size\<close> counts the entries. An association
  list with \<open>map_of\<close> (get), \<open>AList.update\<close> (set), \<open>AList.delete\<close> (delete) and
  \<open>length\<close> (size) behaves so; that keys stay distinct is part of the invariant
  proved below for every reachable state.

  Times are the integers returned by \<open>Date.now()\<close> (milliseconds). Every clock
  reading and every random draw of a handler is an input of the event that
  triggers it. Playback states, seek positions, chat contents and signalling
  blobs are never inspected by the server and are carried as opaque strings.
\<close>

type_synonym socket_id = string
type_synonym payload = string

text \<open>
  Modelled from the spec: the declarations of \<open>Room\<close>, \<open>Member\<close>, \<open>RoomMemberInfo\<close>
  and \<open>ChatMessage\<close> (types.ts) are not among the sources. The fields are those of
  the object literals built by the handlers and of section 3 of the specification.
  Field \<open>id\<close>, \<open>name\<close>, \<open>type\<close> carry a prefix to keep them apart.
\<close>

record room =
  r_id :: string
  r_name :: string
  description :: "string option"
  password :: "string option"
  isPublic :: bool
  ownerId :: socket_id
  ownerName :: string
  ownerToken :: string
  memberCount :: nat
  currentState :: "payload option"
  createdAt :: int
  lastOwnerHeartbeat :: int

record member =
  m_id :: socket_id
  m_name :: string
  m_isOwner :: bool
  lastHeartbeat :: int

record roomMemberInfo =
  roomId :: string
  userId :: socket_id
  userName :: string
  isOwner :: bool

record chatMessage =
  c_id :: string
  c_userId :: socket_id
  c_userName :: string
  c_content :: string
  c_type :: string
  c_timestamp :: int

text \<open>The payload of \<open>room:create\<close>.\<close>

record createData =
  d_name :: string
  d_description :: "string option"
  d_password :: "string option"
  d_isPublic :: bool
  d_userName :: string

text \<open>
  The failure texts of the acknowledgements, in source order: room does not exist,
  wrong password, joining failed, creating failed (the four Chinese texts of
  \<open>room:join\<close> and \<open>room:create\<close>), \<open>Not in a room\<close>, \<open>Not owner\<close>
  (\<open>state:clear\<close>; its \<open>Room not found\<close> is \<open>RoomNotFound\<close> too) and
  \<open>Unauthorized\<close>.
\<close>

datatype error =
  RoomNotFound | BadPassword | JoinFailed | CreationFailed | NotInRoom | NotOwner | Unauthorized

text \<open>Everything the server sends: the server-to-client events and the acknowledgements.\<close>

datatype server_msg =
    MsgError error
  | MsgRoomMemberJoined member
  | MsgRoomMemberLeft socket_id
  | MsgRoomDeleted
  | MsgPlayUpdate payload
  | MsgPlaySeek payload
  | MsgPlayPlay
  | MsgPlayPause
  | MsgPlayChange payload
  | MsgLiveChange payload
  | MsgChatMessage chatMessage
  | MsgVoiceOffer socket_id payload
  | MsgVoiceAnswer socket_id payload
  | MsgVoiceIce socket_id payload
  | MsgStateCleared
  | MsgHeartbeatPong int
  | MsgCreateAck "error + room"
  | MsgJoinAck "error + room \<times> member list"
  | MsgListAck "room list"
  | MsgClearAck "error option"

text \<open>
  A group of the transport is named by a string; a connection is put into the
  group of a room by \<open>socket.join\<close> and, on connecting, into the group named by
  its own id.

  How a message is addressed: \<open>callback(...)\<close>, \<open>socket.emit\<close>,
  \<open>socket.to(room).emit\<close> (the room's group without the sender) and
  \<open>io.to(room).emit\<close> (the whole group). An emission records the addressing, the
  message and the connections the group resolved to when the call was made.
\<close>

datatype dest =
    Callback socket_id
  | ToSocket socket_id
  | Broadcast socket_id string
  | ToRoom string

record emission =
  dest :: dest
  message :: server_msg
  recipients :: "socket_id list"

text \<open>
  The server object with the part of its surroundings that its behaviour depends
  on: \<open>sockets\<close> are the connections that passed authentication and carry the
  handlers, \<open>adapter\<close> is the transport's group membership as pairs (connection,
  group) in joining order, \<open>cleanupInterval\<close> tells whether the interval timer is
  armed, \<open>shuttingDown\<close> whether \<open>shutdown\<close> of index.ts has been called.
\<close>

record state =
  rooms :: "(string \<times> room) list"
  members :: "(string \<times> (socket_id \<times> member) list) list"
  socketToRoom :: "(socket_id \<times> roomMemberInfo) list"
  cleanupInterval :: bool
  authKey :: string
  sockets :: "socket_id list"
  adapter :: "(socket_id \<times> string) list"
  shuttingDown :: bool

definition new_server :: "string \<Rightarrow> state" where
  "new_server key =
     \<lparr>rooms = [], members = [], socketToRoom = [], cleanupInterval = True,
      authKey = key, sockets = [], adapter = [], shuttingDown = False\<rparr>"

section \<open>Transport primitives\<close>

definition subscribers :: "(socket_id \<times> string) list \<Rightarrow> string \<Rightarrow> socket_id list" where
  "subscribers ad r = map fst (filter (\<lambda>p. snd p = r) ad)"

definition socket_join :: "socket_id \<Rightarrow> string \<Rightarrow> (socket_id \<times> string) list \<Rightarrow> (socket_id \<times> string) list" where
  "socket_join sid r ad = (if (sid, r) \<in> set ad then ad else ad @ [(sid, r)])"

definition socket_leave :: "socket_id \<Rightarrow> string \<Rightarrow> (socket_id \<times> string) list \<Rightarrow> (socket_id \<times> string) list" where
  "socket_leave sid r ad = filter (\<lambda>p. p \<noteq> (sid, r)) ad"

definition leaveAll :: "socket_id \<Rightarrow> (socket_id \<times> string) list \<Rightarrow> (socket_id \<times> string) list" where
  "leaveAll sid ad = filter (\<lambda>p. fst p \<noteq> sid) ad"

definition io_to :: "state \<Rightarrow> string \<Rightarrow> server_msg \<Rightarrow> emission" where
  "io_to s r m = \<lparr>dest = ToRoom r, message = m, recipients = subscribers (adapter s) r\<rparr>"

definition socket_to :: "state \<Rightarrow> socket_id \<Rightarrow> string \<Rightarrow> server_msg \<Rightarrow> emission" where
  "socket_to s sid r m =
     \<lparr>dest = Broadcast sid r, message = m,
      recipients = filter (\<lambda>x. x \<noteq> sid) (subscribers (adapter s) r)\<rparr>"

definition socket_emit :: "socket_id \<Rightarrow> server_msg \<Rightarrow> emission" where
  "socket_emit sid m = \<lparr>dest = ToSocket sid, message = m, recipients = [sid]\<rparr>"

definition callback :: "socket_id \<Rightarrow> server_msg \<Rightarrow> emission" where
  "callback sid m = \<lparr>dest = Callback sid, message = m, recipients = [sid]\<rparr>"

text \<open>JavaScript truthiness of an optional string: defined and not empty.\<close>

fun truthy :: "string option \<Rightarrow> bool" where
  "truthy None = False"
| "truthy (Some x) = (x \<noteq> [])"

section \<open>Identifier generator\<close>

text \<open>
  \<open>Math.random().toString(36).substring(2, 8).toUpperCase()\<close>. The argument is the
  random draw as \<open>toString(36)\<close> renders it (\<open>0.\<close> followed by base-36 digits);
  \<open>substring\<close> and \<open>toUpperCase\<close> are computed on it.
\<close>

definition upper_char :: "char \<Rightarrow> char" where
  "upper_char c =
     (case map_of (zip ''abcdefghijklmnopqrstuvwxyz'' ''ABCDEFGHIJKLMNOPQRSTUVWXYZ'') c of
        None \<Rightarrow> c
      | Some u \<Rightarrow> u)"

definition toUpperCase :: "string \<Rightarrow> string" where
  "toUpperCase x = map upper_char x"

definition substring :: "nat \<Rightarrow> nat \<Rightarrow> string \<Rightarrow> string" where
  "substring i j x = take (j - i) (drop i x)"

definition generateRoomId :: "string \<Rightarrow> string" where
  "generateRoomId rnd36 = toUpperCase (substring 2 8 rnd36)"

fun dec_nat :: "nat \<Rightarrow> string" where
  "dec_nat n =
     (if n < 10 then [''0123456789'' ! n]
      else dec_nat (n div 10) @ [''0123456789'' ! (n mod 10)])"

definition dec_int :: "int \<Rightarrow> string" where
  "dec_int i = (if i < 0 then CHR ''-'' # dec_nat (nat (- i)) else dec_nat (nat i))"

definition generateMessageId :: "int \<Rightarrow> string \<Rightarrow> string" where
  "generateMessageId now rnd36 = dec_int now @ ''-'' @ substring 2 9 rnd36"

section \<open>Room lifecycle handlers\<close>

text \<open>
  Every handler takes the state and the connection it is registered on and
  returns the new state with the emissions in the order they are made. The
  payloads are taken to have the types the handlers declare, and an
  acknowledgement callback to be there where the handler calls it without a
  test; then nothing inside the \<open>try\<close> blocks of \<open>room:create\<close> and \<open>room:join\<close>
  raises, and their \<open>catch\<close> branches (\<open>CreationFailed\<close>, \<open>JoinFailed\<close>) are not
  taken.

  \<open>connection\<close>: the transport gives every connection an id of its own, so an id
  that is already connected does not connect again. A connection with a missing,
  empty or wrong token is told \<open>Unauthorized\<close> and closed before any handler is
  registered on it.
\<close>

definition on_connection :: "state \<Rightarrow> socket_id \<Rightarrow> string option \<Rightarrow> state \<times> emission list" where
  "on_connection s sid token =
     (if sid \<in> set (sockets s) then (s, [])
      else if \<not> truthy token \<or> token \<noteq> Some (authKey s)
      then (s, [socket_emit sid (MsgError Unauthorized)])
      else (s\<lparr>sockets := sockets s @ [sid], adapter := socket_join sid sid (adapter s)\<rparr>, []))"

definition on_room_create ::
  "state \<Rightarrow> socket_id \<Rightarrow> createData \<Rightarrow> string \<Rightarrow> string \<Rightarrow> int \<Rightarrow> int \<Rightarrow> int \<Rightarrow> state \<times> emission list" where
  "on_room_create s sid data rnd1 rnd2 t1 t2 t3 =
     (let rid = generateRoomId rnd1;
          uid = sid;
          tok = generateRoomId rnd2;
          room = \<lparr>r_id = rid, r_name = d_name data, description = d_description data,
                  password = d_password data, isPublic = d_isPublic data, ownerId = uid,
                  ownerName = d_userName data, ownerToken = tok, memberCount = 1,
                  currentState = None, createdAt = t1, lastOwnerHeartbeat = t2\<rparr>;
          member = \<lparr>m_id = uid, m_name = d_userName data, m_isOwner = True, lastHeartbeat = t3\<rparr>
      in (s\<lparr>rooms := AList.update rid room (rooms s),
            members := AList.update rid [(uid, member)] (members s),
            socketToRoom := AList.update sid
               \<lparr>roomId = rid, userId = uid, userName = d_userName data, isOwner = True\<rparr>
               (socketToRoom s),
            adapter := socket_join sid rid (adapter s)\<rparr>,
          [callback sid (MsgCreateAck (Inr room))]))"

definition on_room_join ::
  "state \<Rightarrow> socket_id \<Rightarrow> string \<Rightarrow> string option \<Rightarrow> string \<Rightarrow> int \<Rightarrow> state \<times> emission list" where
  "on_room_join s sid rid pw uname now =
     (case map_of (rooms s) rid of
        None \<Rightarrow> (s, [callback sid (MsgJoinAck (Inl RoomNotFound))])
      | Some room \<Rightarrow>
          if truthy (password room) \<and> password room \<noteq> pw
          then (s, [callback sid (MsgJoinAck (Inl BadPassword))])
          else
            let uid = sid;
                member = \<lparr>m_id = uid, m_name = uname, m_isOwner = False, lastHeartbeat = now\<rparr>;
                roomMembers = (case map_of (members s) rid of
                                 None \<Rightarrow> None
                               | Some ms \<Rightarrow> Some (AList.update uid member ms));
                room' = (case roomMembers of
                           None \<Rightarrow> room
                         | Some ms' \<Rightarrow> room\<lparr>memberCount := length ms'\<rparr>);
                s1 = (case roomMembers of
                        None \<Rightarrow> s
                      | Some ms' \<Rightarrow> s\<lparr>members := AList.update rid ms' (members s),
                                     rooms := AList.update rid room' (rooms s)\<rparr>);
                s2 = s1\<lparr>socketToRoom := AList.update sid
                           \<lparr>roomId = rid, userId = uid, userName = uname, isOwner = False\<rparr>
                           (socketToRoom s1),
                        adapter := socket_join sid rid (adapter s1)\<rparr>
            in (s2, [socket_to s2 sid rid (MsgRoomMemberJoined member),
                     callback sid (MsgJoinAck (Inr (room',
                       (case roomMembers of None \<Rightarrow> [] | Some ms' \<Rightarrow> map snd ms'))))]))"

definition deleteRoom :: "state \<Rightarrow> string \<Rightarrow> state \<times> emission list" where
  "deleteRoom s rid =
     (s\<lparr>rooms := AList.delete rid (rooms s), members := AList.delete rid (members s)\<rparr>,
      [io_to s rid MsgRoomDeleted])"

definition handleLeaveRoom :: "state \<Rightarrow> socket_id \<Rightarrow> state \<times> emission list" where
  "handleLeaveRoom s sid =
     (case map_of (socketToRoom s) sid of
        None \<Rightarrow> (s, [])
      | Some info \<Rightarrow>
          let rid = roomId info;
              uid = userId info;
              r = (case map_of (members s) rid of
                     None \<Rightarrow> (s, [])
                   | Some ms \<Rightarrow>
                       let ms' = AList.delete uid ms;
                           sa = s\<lparr>members := AList.update rid ms' (members s)\<rparr>;
                           sb = (case map_of (rooms sa) rid of
                                   None \<Rightarrow> sa
                                 | Some room \<Rightarrow>
                                     sa\<lparr>rooms := AList.update rid
                                           (room\<lparr>memberCount := length ms'\<rparr>) (rooms sa)\<rparr>);
                           e = socket_to sb sid rid (MsgRoomMemberLeft uid);
                           d = (if length ms' = 0 then deleteRoom sb rid else (sb, []))
                       in (fst d, e # snd d))
          in ((fst r)\<lparr>adapter := socket_leave sid rid (adapter (fst r)),
                      socketToRoom := AList.delete sid (socketToRoom (fst r))\<rparr>,
              snd r))"

definition on_room_list :: "state \<Rightarrow> socket_id \<Rightarrow> state \<times> emission list" where
  "on_room_list s sid = (s, [callback sid (MsgListAck (filter isPublic (map snd (rooms s))))])"

section \<open>Playback handlers\<close>

text \<open>
  \<open>play:update\<close>, \<open>play:change\<close> and \<open>live:change\<close> have the same body up to the
  name of the event they send on; \<open>mk\<close> is that event.
\<close>

definition owner_set_state ::
  "(payload \<Rightarrow> server_msg) \<Rightarrow> state \<Rightarrow> socket_id \<Rightarrow> payload \<Rightarrow> state \<times> emission list" where
  "owner_set_state mk s sid st =
     (case map_of (socketToRoom s) sid of
        None \<Rightarrow> (s, [])
      | Some info \<Rightarrow>
          if \<not> isOwner info then (s, [])
          else (case map_of (rooms s) (roomId info) of
                  None \<Rightarrow> (s, [])
                | Some room \<Rightarrow>
                    let s1 = s\<lparr>rooms := AList.update (roomId info)
                                  (room\<lparr>currentState := Some st\<rparr>) (rooms s)\<rparr>
                    in (s1, [socket_to s1 sid (roomId info) (mk st)])))"

definition on_play_update :: "state \<Rightarrow> socket_id \<Rightarrow> payload \<Rightarrow> state \<times> emission list" where
  "on_play_update = owner_set_state MsgPlayUpdate"

definition on_play_change :: "state \<Rightarrow> socket_id \<Rightarrow> payload \<Rightarrow> state \<times> emission list" where
  "on_play_change = owner_set_state MsgPlayChange"

definition on_live_change :: "state \<Rightarrow> socket_id \<Rightarrow> payload \<Rightarrow> state \<times> emission list" where
  "on_live_change = owner_set_state MsgLiveChange"

text \<open>\<open>play:seek\<close>, \<open>play:play\<close> and \<open>play:pause\<close> share the body of a relay.\<close>

definition relay :: "server_msg \<Rightarrow> state \<Rightarrow> socket_id \<Rightarrow> state \<times> emission list" where
  "relay m s sid =
     (case map_of (socketToRoom s) sid of
        None \<Rightarrow> (s, [])
      | Some info \<Rightarrow> (s, [socket_to s sid (roomId info) m]))"

definition on_play_seek :: "state \<Rightarrow> socket_id \<Rightarrow> payload \<Rightarrow> state \<times> emission list" where
  "on_play_seek s sid currentTime = relay (MsgPlaySeek currentTime) s sid"

definition on_play_play :: "state \<Rightarrow> socket_id \<Rightarrow> state \<times> emission list" where
  "on_play_play s sid = relay MsgPlayPlay s sid"

definition on_play_pause :: "state \<Rightarrow> socket_id \<Rightarrow> state \<times> emission list" where
  "on_play_pause s sid = relay MsgPlayPause s sid"

section \<open>Chat, signalling, clearing and heartbeat\<close>

definition on_chat_message ::
  "state \<Rightarrow> socket_id \<Rightarrow> string \<Rightarrow> string \<Rightarrow> int \<Rightarrow> string \<Rightarrow> int \<Rightarrow> state \<times> emission list" where
  "on_chat_message s sid content ty t1 rnd t2 =
     (case map_of (socketToRoom s) sid of
        None \<Rightarrow> (s, [])
      | Some info \<Rightarrow>
          (s, [io_to s (roomId info) (MsgChatMessage
                 \<lparr>c_id = generateMessageId t1 rnd, c_userId = userId info,
                  c_userName = userName info, c_content = content, c_type = ty,
                  c_timestamp = t2\<rparr>)]))"

definition voice ::
  "(socket_id \<Rightarrow> payload \<Rightarrow> server_msg) \<Rightarrow> state \<Rightarrow> socket_id \<Rightarrow> string \<Rightarrow> payload \<Rightarrow> state \<times> emission list" where
  "voice mk s sid targetUserId blob =
     (case map_of (socketToRoom s) sid of
        None \<Rightarrow> (s, [])
      | Some info \<Rightarrow> (s, [io_to s targetUserId (mk sid blob)]))"

definition on_voice_offer :: "state \<Rightarrow> socket_id \<Rightarrow> string \<Rightarrow> payload \<Rightarrow> state \<times> emission list" where
  "on_voice_offer = voice MsgVoiceOffer"

definition on_voice_answer :: "state \<Rightarrow> socket_id \<Rightarrow> string \<Rightarrow> payload \<Rightarrow> state \<times> emission list" where
  "on_voice_answer = voice MsgVoiceAnswer"

definition on_voice_ice :: "state \<Rightarrow> socket_id \<Rightarrow> string \<Rightarrow> payload \<Rightarrow> state \<times> emission list" where
  "on_voice_ice = voice MsgVoiceIce"

text \<open>\<open>state:clear\<close>; \<open>cb\<close> tells whether the client passed an acknowledgement callback.\<close>

definition on_state_clear :: "state \<Rightarrow> socket_id \<Rightarrow> bool \<Rightarrow> state \<times> emission list" where
  "on_state_clear s sid cb =
     (let ack = (\<lambda>r. if cb then [callback sid (MsgClearAck r)] else [])
      in case map_of (socketToRoom s) sid of
           None \<Rightarrow> (s, ack (Some NotInRoom))
         | Some info \<Rightarrow>
             if \<not> isOwner info then (s, ack (Some NotOwner))
             else (case map_of (rooms s) (roomId info) of
                     None \<Rightarrow> (s, ack (Some RoomNotFound))
                   | Some room \<Rightarrow>
                       let s1 = s\<lparr>rooms := AList.update (roomId info)
                                     (room\<lparr>currentState := None\<rparr>) (rooms s)\<rparr>
                       in (s1, socket_to s1 sid (roomId info) MsgStateCleared # ack None)))"

text \<open>
  \<open>heartbeat\<close>; \<open>t1\<close>, \<open>t2\<close>, \<open>t3\<close> are its three clock readings, in the order the
  handler takes them (the second only when the owner branch runs).
\<close>

definition on_heartbeat :: "state \<Rightarrow> socket_id \<Rightarrow> int \<Rightarrow> int \<Rightarrow> int \<Rightarrow> state \<times> emission list" where
  "on_heartbeat s sid t1 t2 t3 =
     (case map_of (socketToRoom s) sid of
        None \<Rightarrow> (s, [])
      | Some info \<Rightarrow>
          let s1 = (case map_of (members s) (roomId info) of
                      None \<Rightarrow> s
                    | Some ms \<Rightarrow>
                        (case map_of ms (userId info) of
                           None \<Rightarrow> s
                         | Some m \<Rightarrow>
                             s\<lparr>members := AList.update (roomId info)
                                  (AList.update (userId info) (m\<lparr>lastHeartbeat := t1\<rparr>) ms)
                                  (members s)\<rparr>));
              s2 = (if isOwner info
                    then (case map_of (rooms s1) (roomId info) of
                            None \<Rightarrow> s1
                          | Some room \<Rightarrow>
                              s1\<lparr>rooms := AList.update (roomId info)
                                    (room\<lparr>lastOwnerHeartbeat := t2\<rparr>) (rooms s1)\<rparr>)
                    else s1)
          in (s2, [socket_emit sid (MsgHeartbeatPong t3)]))"

text \<open>
  \<open>disconnect\<close>: the transport has taken the connection out of every group before
  the handler runs; the handler is the shared leave routine.
\<close>

definition on_disconnect :: "state \<Rightarrow> socket_id \<Rightarrow> state \<times> emission list" where
  "on_disconnect s sid =
     handleLeaveRoom
       (s\<lparr>sockets := removeAll sid (sockets s), adapter := leaveAll sid (adapter s)\<rparr>) sid"

section \<open>Liveness reconciler and process shutdown\<close>

definition deleteTimeout :: int where
  "deleteTimeout = 5 * 60 * 1000"

definition clearStateTimeout :: int where
  "clearStateTimeout = 30 * 1000"

text \<open>
  The body of the \<open>forEach\<close> callback. It has no \<open>try\<close>; an exception of a call it
  makes leaves it at that call. \<open>faults\<close> lists the room ids whose group broadcast
  raises, so that the effect of such an exception can be stated; with
  \<open>faults = []\<close> nothing raises.
\<close>

datatype 'a outcome = Returned 'a | Threw 'a

definition cleanup_room ::
  "string list \<Rightarrow> int \<Rightarrow> string \<Rightarrow> room \<Rightarrow> state \<Rightarrow> (state \<times> emission list) outcome" where
  "cleanup_room faults now rid room s =
     (let timeSinceHeartbeat = now - lastOwnerHeartbeat room;
          clear = (timeSinceHeartbeat > clearStateTimeout \<and> currentState room \<noteq> None);
          s1 = (if clear
                then s\<lparr>rooms := AList.update rid (room\<lparr>currentState := None\<rparr>) (rooms s)\<rparr>
                else s);
          out1 = (if clear then [io_to s1 rid MsgStateCleared] else [])
      in if clear \<and> rid \<in> set faults then Threw (s1, [])
         else if timeSinceHeartbeat > deleteTimeout
         then (if rid \<in> set faults then Threw (s1, out1)
               else Returned (fst (deleteRoom s1 rid), out1 @ snd (deleteRoom s1 rid)))
         else Returned (s1, out1))"

text \<open>
  \<open>this.rooms.forEach\<close>: the entries are visited in order, each with the value it
  has when it is reached; an entry deleted before it is reached is skipped. The
  scan therefore walks the keys and looks each one up in the current state.
\<close>

definition emitted_first :: "emission list \<Rightarrow> (state \<times> emission list) outcome \<Rightarrow> (state \<times> emission list) outcome" where
  "emitted_first out r =
     (case r of Returned (s, out') \<Rightarrow> Returned (s, out @ out')
              | Threw (s, out') \<Rightarrow> Threw (s, out @ out'))"

fun cleanup_scan :: "string list \<Rightarrow> int \<Rightarrow> string list \<Rightarrow> state \<Rightarrow> (state \<times> emission list) outcome" where
  "cleanup_scan faults now [] s = Returned (s, [])"
| "cleanup_scan faults now (rid # ks) s =
     (case map_of (rooms s) rid of
        None \<Rightarrow> cleanup_scan faults now ks s
      | Some room \<Rightarrow>
          (case cleanup_room faults now rid room s of
             Returned (s', out) \<Rightarrow> emitted_first out (cleanup_scan faults now ks s')
           | Threw (s', out) \<Rightarrow> Threw (s', out)))"

definition cleanup_callback :: "string list \<Rightarrow> int \<Rightarrow> state \<Rightarrow> (state \<times> emission list) outcome" where
  "cleanup_callback faults now s = cleanup_scan faults now (map fst (rooms s)) s"

definition destroy :: "state \<Rightarrow> state" where
  "destroy s = s\<lparr>cleanupInterval := False\<rparr>"

text \<open>
  \<open>shutdown\<close> of index.ts stops the timer through \<open>destroy\<close>, closes the HTTP server
  and exits the process, at the latest ten seconds later. The handler of
  \<open>uncaughtException\<close> calls it.
\<close>

definition shutdown :: "state \<Rightarrow> state" where
  "shutdown s = (destroy s)\<lparr>shuttingDown := True\<rparr>"

definition uncaughtException :: "state \<Rightarrow> state" where
  "uncaughtException s = shutdown s"

text \<open>One firing of the interval timer: nothing when the timer has been cleared.\<close>

definition timer_fire :: "string list \<Rightarrow> int \<Rightarrow> state \<Rightarrow> state \<times> emission list" where
  "timer_fire faults now s =
     (if \<not> cleanupInterval s then (s, [])
      else (case cleanup_callback faults now s of
              Returned r \<Rightarrow> r
            | Threw (s', out) \<Rightarrow> (uncaughtException s', out)))"

section \<open>Events and reachable states\<close>

datatype client_event =
    EvRoomCreate createData string string int int int
  | EvRoomJoin string "string option" string int
  | EvRoomLeave
  | EvRoomList
  | EvPlayUpdate payload
  | EvPlaySeek payload
  | EvPlayPlay
  | EvPlayPause
  | EvPlayChange payload
  | EvLiveChange payload
  | EvChatMessage string string int string int
  | EvVoiceOffer string payload
  | EvVoiceAnswer string payload
  | EvVoiceIce string payload
  | EvStateClear bool
  | EvHeartbeat int int int

datatype event =
    Connection socket_id "string option"
  | Client socket_id client_event
  | Disconnect socket_id
  | Tick int "string list"
  | Signal

fun handle :: "state \<Rightarrow> socket_id \<Rightarrow> client_event \<Rightarrow> state \<times> emission list" where
  "handle s sid (EvRoomCreate data rnd1 rnd2 t1 t2 t3) = on_room_create s sid data rnd1 rnd2 t1 t2 t3"
| "handle s sid (EvRoomJoin rid pw uname now) = on_room_join s sid rid pw uname now"
| "handle s sid EvRoomLeave = handleLeaveRoom s sid"
| "handle s sid EvRoomList = on_room_list s sid"
| "handle s sid (EvPlayUpdate st) = on_play_update s sid st"
| "handle s sid (EvPlaySeek ct) = on_play_seek s sid ct"
| "handle s sid EvPlayPlay = on_play_play s sid"
| "handle s sid EvPlayPause = on_play_pause s sid"
| "handle s sid (EvPlayChange st) = on_play_change s sid st"
| "handle s sid (EvLiveChange st) = on_live_change s sid st"
| "handle s sid (EvChatMessage content ty t1 rnd t2) = on_chat_message s sid content ty t1 rnd t2"
| "handle s sid (EvVoiceOffer target blob) = on_voice_offer s sid target blob"
| "handle s sid (EvVoiceAnswer target blob) = on_voice_answer s sid target blob"
| "handle s sid (EvVoiceIce target blob) = on_voice_ice s sid target blob"
| "handle s sid (EvStateClear cb) = on_state_clear s sid cb"
| "handle s sid (EvHeartbeat t1 t2 t3) = on_heartbeat s sid t1 t2 t3"

text \<open>
  An event of a client reaches a handler only on a connection that passed
  authentication and is still open.
\<close>

fun step :: "state \<Rightarrow> event \<Rightarrow> state \<times> emission list" where
  "step s (Connection sid token) = on_connection s sid token"
| "step s (Client sid ev) = (if sid \<in> set (sockets s) then handle s sid ev else (s, []))"
| "step s (Disconnect sid) = (if sid \<in> set (sockets s) then on_disconnect s sid else (s, []))"
| "step s (Tick now faults) = timer_fire faults now s"
| "step s Signal = (shutdown s, [])"

fun run :: "state \<Rightarrow> event list \<Rightarrow> state" where
  "run s [] = s"
| "run s (e # es) = run (fst (step s e)) es"

inductive reachable :: "state \<Rightarrow> bool" where
  start: "reachable (new_server key)"
| after: "reachable s \<Longrightarrow> reachable (fst (step s e))"

section \<open>Store invariant and observations\<close>

text \<open>
  The store is consistent when the keys of each map are distinct, every room has
  a membership map and its \<open>memberCount\<close> is the size of that map.
\<close>

definition store_ok :: "(string \<times> room) list \<Rightarrow> (string \<times> (socket_id \<times> member) list) list \<Rightarrow> bool" where
  "store_ok rs ms \<longleftrightarrow>
     distinct (map fst rs) \<and> distinct (map fst ms) \<and>
     (\<forall>rid room. map_of rs rid = Some room \<longrightarrow>
        (\<exists>m. map_of ms rid = Some m \<and> memberCount room = length m)) \<and>
     (\<forall>rid m. map_of ms rid = Some m \<longrightarrow> distinct (map fst m))"

definition wf :: "state \<Rightarrow> bool" where
  "wf s = store_ok (rooms s) (members s)"

text \<open>What an outcome carries, returned or thrown.\<close>

fun result :: "'a outcome \<Rightarrow> 'a" where
  "result (Returned x) = x"
| "result (Threw x) = x"

text \<open>The group broadcasts addressed to a room id, and how many of them carry a given message.\<close>

definition for_room :: "string \<Rightarrow> emission list \<Rightarrow> emission list" where
  "for_room rid out = filter (\<lambda>e. dest e = ToRoom rid) out"

definition broadcasts :: "server_msg \<Rightarrow> string \<Rightarrow> emission list \<Rightarrow> nat" where
  "broadcasts m rid out = length (filter (\<lambda>e. message e = m) (for_room rid out))"

section \<open>Example runs\<close>

text \<open>The member record that \<open>room:join\<close> builds for the joiner.\<close>

definition guest :: "socket_id \<Rightarrow> string \<Rightarrow> int \<Rightarrow> member" where
  "guest sid uname now = \<lparr>m_id = sid, m_name = uname, m_isOwner = False, lastHeartbeat = now\<rparr>"

definition movie_night :: createData where
  "movie_night = \<lparr>d_name = ''Movie Night'', d_description = None, d_password = None,
     d_isPublic = True, d_userName = ''Ann''\<rparr>"

definition the_room :: room where
  "the_room = \<lparr>r_id = ''ABC123'', r_name = ''Movie Night'', description = None,
     password = None, isPublic = True, ownerId = ''a'', ownerName = ''Ann'',
     ownerToken = ''Q1W2E3'', memberCount = 2, currentState = None, createdAt = 1000,
     lastOwnerHeartbeat = 1000\<rparr>"

definition ann :: member where
  "ann = \<lparr>m_id = ''a'', m_name = ''Ann'', m_isOwner = True, lastHeartbeat = 1001\<rparr>"

definition ann_info :: roomMemberInfo where
  "ann_info = \<lparr>roomId = ''ABC123'', userId = ''a'', userName = ''Ann'', isOwner = True\<rparr>"

definition bob_info :: roomMemberInfo where
  "bob_info = \<lparr>roomId = ''ABC123'', userId = ''b'', userName = ''Bob'', isOwner = False\<rparr>"

text \<open>A connection that has passed authentication and is in no room.\<close>

definition lobby :: state where
  "lobby = run (new_server ''key'') [Connection ''a'' (Some ''key'')]"

text \<open>Ann has created a room and is alone in it.\<close>

definition alone :: state where
  "alone = run lobby
     [Client ''a'' (EvRoomCreate movie_night ''0.abc123xyz'' ''0.q1w2e3r4'' 1000 1000 1001)]"

text \<open>Bob has joined Ann's room.\<close>

definition two_in_room :: state where
  "two_in_room = run alone
     [Connection ''b'' (Some ''key''), Client ''b'' (EvRoomJoin ''ABC123'' None ''Bob'' 2000)]"

text \<open>Ann's room with a password, Bob connected and not yet in it.\<close>

definition locked_room :: state where
  "locked_room = run lobby
     [Client ''a'' (EvRoomCreate (movie_night\<lparr>d_password := Some ''secret''\<rparr>)
        ''0.abc123xyz'' ''0.q1w2e3r4'' 1000 1000 1001),
      Connection ''b'' (Some ''key'')]"

text \<open>Ann's room has been deleted by the reconciler; her session pointer is still there.\<close>

definition orphaned :: state where
  "orphaned = run alone [Tick 400000 []]"

text \<open>A third connection next to the room of Ann and Bob.\<close>

definition three_connected :: state where
  "three_connected = run two_in_room [Connection ''c'' (Some ''key'')]"

definition cleo_creates :: client_event where
  "cleo_creates = EvRoomCreate (movie_night\<lparr>d_name := ''Other'', d_userName := ''Cleo''\<rparr>)
     ''0.abc123tuv'' ''0.zzzzzz'' 5000 5000 5000"

text \<open>Ann has set a playback state in the room she shares with Bob.\<close>

definition playing :: state where
  "playing = run two_in_room [Client ''a'' (EvPlayUpdate ''playing at 120'')]"

text \<open>Bob has moved on to a room of his own; both rooms have a playback state.\<close>

definition two_rooms :: state where
  "two_rooms = run playing
     [Client ''b'' (EvRoomCreate (movie_night\<lparr>d_name := ''Second'', d_userName := ''Bob''\<rparr>)
        ''0.def456uvw'' ''0.r5t6y7'' 3000 3000 3000),
      Client ''b'' (EvPlayUpdate ''live channel 7'')]"

definition second_room :: room where
  "second_room = \<lparr>r_id = ''DEF456'', r_name = ''Second'', description = None,
     password = None, isPublic = True, ownerId = ''b'', ownerName = ''Bob'',
     ownerToken = ''R5T6Y7'', memberCount = 1, currentState = Some ''live channel 7'',
     createdAt = 3000, lastOwnerHeartbeat = 3000\<rparr>"




section \<open>The invariant holds in every reachable state\<close>

lemma store_ok_set_both:
  "store_ok rs ms \<Longrightarrow> distinct (map fst m) \<Longrightarrow> memberCount room = length m \<Longrightarrow>
   store_ok (AList.update rid room rs) (AList.update rid m ms)"
  unfolding store_ok_def by (auto simp: update_conv' distinct_update)

lemma store_ok_set_room:
  "store_ok rs ms \<Longrightarrow> map_of ms rid = Some m \<Longrightarrow> memberCount room = length m \<Longrightarrow>
   store_ok (AList.update rid room rs) ms"
  unfolding store_ok_def by (auto simp: update_conv' distinct_update)

lemma store_ok_set_members:
  "store_ok rs ms \<Longrightarrow> distinct (map fst m) \<Longrightarrow>
   (\<forall>room. map_of rs rid = Some room \<longrightarrow> memberCount room = length m) \<Longrightarrow>
   store_ok rs (AList.update rid m ms)"
  unfolding store_ok_def by (auto simp: update_conv' distinct_update)

lemma store_ok_delete:
  "store_ok rs ms \<Longrightarrow> store_ok (AList.delete rid rs) (AList.delete rid ms)"
  unfolding store_ok_def by (auto simp: delete_conv' distinct_delete split: if_splits)

lemma wf_new_server: "wf (new_server key)"
  by (simp add: wf_def store_ok_def new_server_def)

lemma wf_on_connection: "wf s \<Longrightarrow> wf (fst (on_connection s sid token))"
  by (simp add: wf_def on_connection_def)

lemma wf_on_room_create: "wf s \<Longrightarrow> wf (fst (on_room_create s sid d r1 r2 t1 t2 t3))"
  by (simp add: wf_def on_room_create_def Let_def store_ok_set_both)

lemma store_ok_members_distinct:
  "store_ok rs ms \<Longrightarrow> map_of ms rid = Some m \<Longrightarrow> distinct (map fst m)"
  unfolding store_ok_def by blast

lemma wf_on_room_join: "wf s \<Longrightarrow> wf (fst (on_room_join s sid rid pw un now))"
  unfolding wf_def on_room_join_def Let_def
  by (auto split: option.splits intro!: store_ok_set_both distinct_update
      dest: store_ok_members_distinct)

lemma wf_deleteRoom: "wf s \<Longrightarrow> wf (fst (deleteRoom s rid))"
  by (simp add: wf_def deleteRoom_def store_ok_delete)

lemma store_ok_touch_room:
  "store_ok rs ms \<Longrightarrow> map_of rs rid = Some room \<Longrightarrow> memberCount room' = memberCount room \<Longrightarrow>
   store_ok (AList.update rid room' rs) ms"
  unfolding store_ok_def by (auto simp: update_conv' distinct_update simp del: map_of_eq_Some_iff)

lemma wf_handleLeaveRoom:
  assumes "wf s"
  shows "wf (fst (handleLeaveRoom s sid))"
proof (cases "map_of (socketToRoom s) sid")
  case None
  with assms show ?thesis by (simp add: handleLeaveRoom_def)
next
  case (Some info)
  show ?thesis
  proof (cases "map_of (members s) (roomId info)")
    case None
    with Some assms show ?thesis by (simp add: handleLeaveRoom_def wf_def)
  next
    case ms: (Some ms)
    let ?ms' = "AList.delete (userId info) ms"
    let ?mem = "AList.update (roomId info) ?ms' (members s)"
    have d: "distinct (map fst ?ms')"
      using assms ms by (auto simp: wf_def distinct_delete dest: store_ok_members_distinct)
    show ?thesis
    proof (cases "map_of (rooms s) (roomId info)")
      case None
      have "store_ok (rooms s) ?mem"
        using assms d None by (intro store_ok_set_members) (simp_all add: wf_def)
      moreover have "store_ok (AList.delete (roomId info) (rooms s)) (AList.delete (roomId info) (members s))"
        using assms unfolding wf_def by (rule store_ok_delete)
      ultimately show ?thesis using Some ms None
        by (simp add: handleLeaveRoom_def Let_def wf_def deleteRoom_def delete_update_same)
    next
      case room: (Some room)
      let ?rs = "AList.update (roomId info) (room\<lparr>memberCount := length ?ms'\<rparr>) (rooms s)"
      have ok: "store_ok ?rs ?mem"
        using assms d by (intro store_ok_set_both) (simp_all add: wf_def)
      moreover have "store_ok (AList.delete (roomId info) (rooms s)) (AList.delete (roomId info) (members s))"
        using assms unfolding wf_def by (rule store_ok_delete)
      ultimately show ?thesis using Some ms room
        by (simp add: handleLeaveRoom_def Let_def wf_def deleteRoom_def delete_update_same)
    qed
  qed
qed

lemma wf_owner_set_state: "wf s \<Longrightarrow> wf (fst (owner_set_state mk s sid st))"
  unfolding wf_def owner_set_state_def Let_def
  by (auto split: option.splits intro: store_ok_touch_room)

lemma wf_relay: "wf s \<Longrightarrow> wf (fst (relay m s sid))"
  by (simp add: relay_def split: option.splits)

lemma wf_on_chat_message: "wf s \<Longrightarrow> wf (fst (on_chat_message s sid c ty t1 rnd t2))"
  by (simp add: on_chat_message_def split: option.splits)

lemma wf_voice: "wf s \<Longrightarrow> wf (fst (voice mk s sid target blob))"
  by (simp add: voice_def split: option.splits)

lemma wf_on_state_clear: "wf s \<Longrightarrow> wf (fst (on_state_clear s sid cb))"
  unfolding wf_def on_state_clear_def Let_def
  by (auto split: option.splits intro: store_ok_touch_room)

lemma length_update_present:
  "map_of al k = Some v \<Longrightarrow> length (AList.update k v' al) = length al"
  by (induction al) (auto split: if_splits)

lemma store_ok_touch_member:
  assumes "store_ok rs ms" "map_of ms rid = Some m" "map_of m uid = Some x"
  shows "store_ok rs (AList.update rid (AList.update uid x' m) ms)"
proof -
  have l: "length (AList.update uid x' m) = length m"
    using assms(3) by (rule length_update_present)
  have d: "distinct (map fst (AList.update uid x' m))"
    using assms(1,2) by (auto intro!: distinct_update dest: store_ok_members_distinct)
  have "\<forall>room. map_of rs rid = Some room \<longrightarrow> memberCount room = length (AList.update uid x' m)"
    using assms(1,2) l unfolding store_ok_def by (fastforce simp del: map_of_eq_Some_iff)
  with assms(1) d show ?thesis by (intro store_ok_set_members)
qed

lemma wf_on_heartbeat: "wf s \<Longrightarrow> wf (fst (on_heartbeat s sid t1 t2 t3))"
  unfolding wf_def on_heartbeat_def Let_def
  by (auto split: option.splits intro!: store_ok_touch_room [where room' = "r\<lparr>lastOwnerHeartbeat := t2\<rparr>" for r]
        store_ok_touch_member)

lemma wf_on_disconnect: "wf s \<Longrightarrow> wf (fst (on_disconnect s sid))"
  unfolding on_disconnect_def by (rule wf_handleLeaveRoom) (simp add: wf_def)

lemma wf_handle: "wf s \<Longrightarrow> wf (fst (handle s sid ev))"
  by (cases ev)
     (simp_all add: wf_on_room_create wf_on_room_join wf_handleLeaveRoom wf_owner_set_state
        wf_relay wf_on_chat_message wf_voice wf_on_state_clear wf_on_heartbeat
        on_room_list_def on_play_update_def on_play_change_def on_live_change_def
        on_play_seek_def on_play_play_def on_play_pause_def on_voice_offer_def
        on_voice_answer_def on_voice_ice_def)

lemma wf_cleanup_room:
  assumes "wf s" "map_of (rooms s) rid = Some room"
  shows "wf (fst (result (cleanup_room faults now rid room s)))"
proof -
  let ?rs = "AList.update rid (room\<lparr>currentState := None\<rparr>) (rooms s)"
  have a: "store_ok ?rs (members s)"
    using assms by (intro store_ok_touch_room [where room = room]) (simp_all add: wf_def)
  have c: "store_ok (AList.delete rid (rooms s)) (AList.delete rid (members s))"
    using assms(1) unfolding wf_def by (rule store_ok_delete)
  from assms(1) a c show ?thesis
    by (simp add: cleanup_room_def Let_def deleteRoom_def wf_def delete_update_same)
qed

lemma result_emitted_first [simp]: "fst (result (emitted_first out r)) = fst (result r)"
  by (cases r) (auto simp: emitted_first_def)

lemma wf_cleanup_scan: "wf s \<Longrightarrow> wf (fst (result (cleanup_scan faults now ks s)))"
proof (induction ks arbitrary: s)
  case Nil
  then show ?case by simp
next
  case (Cons rid ks)
  show ?case
  proof (cases "map_of (rooms s) rid")
    case None
    with Cons show ?thesis by simp
  next
    case (Some room)
    from Cons.prems Some have w: "wf (fst (result (cleanup_room faults now rid room s)))"
      by (rule wf_cleanup_room)
    show ?thesis
    proof (cases "cleanup_room faults now rid room s")
      case (Returned p)
      with w Some Cons.IH [of "fst p"] show ?thesis by (cases p) simp
    next
      case (Threw p)
      with w Some show ?thesis by (cases p) simp
    qed
  qed
qed

lemma wf_shutdown: "wf s \<Longrightarrow> wf (shutdown s)"
  by (simp add: wf_def shutdown_def destroy_def)

lemma wf_timer_fire: "wf s \<Longrightarrow> wf (fst (timer_fire faults now s))"
proof -
  assume w: "wf s"
  have "wf (fst (result (cleanup_callback faults now s)))"
    unfolding cleanup_callback_def using w by (rule wf_cleanup_scan)
  then show ?thesis
    by (cases "cleanup_callback faults now s")
       (auto simp: timer_fire_def w uncaughtException_def wf_shutdown)
qed

lemma wf_step: "wf s \<Longrightarrow> wf (fst (step s e))"
  by (cases e) (simp_all add: wf_on_connection wf_handle wf_on_disconnect wf_timer_fire wf_shutdown)

lemma reachable_wf: "reachable s \<Longrightarrow> wf s"
  by (induction rule: reachable.induct) (simp_all add: wf_new_server wf_step)

lemma reachable_run: "reachable s \<Longrightarrow> reachable (run s es)"
  by (induction es arbitrary: s) (simp_all add: reachable.after)
section \<open>The example runs, evaluated\<close>

lemmas handler_defs =
  on_connection_def on_room_create_def on_room_join_def deleteRoom_def handleLeaveRoom_def
  on_room_list_def owner_set_state_def on_play_update_def on_play_change_def on_live_change_def
  relay_def on_play_seek_def on_play_play_def on_play_pause_def on_chat_message_def voice_def
  on_voice_offer_def on_voice_answer_def on_voice_ice_def on_state_clear_def on_heartbeat_def
  on_disconnect_def cleanup_room_def cleanup_callback_def emitted_first_def destroy_def
  shutdown_def uncaughtException_def timer_fire_def new_server_def
  subscribers_def socket_join_def socket_leave_def leaveAll_def io_to_def socket_to_def
  socket_emit_def callback_def generateRoomId_def toUpperCase_def substring_def upper_char_def
  generateMessageId_def dec_int_def deleteTimeout_def clearStateTimeout_def Let_def

lemmas example_defs =
  guest_def movie_night_def the_room_def ann_def ann_info_def bob_info_def

lemma lobby_eq:
  "lobby = \<lparr>rooms = [], members = [], socketToRoom = [], cleanupInterval = True,
     authKey = ''key'', sockets = [''a''], adapter = [(''a'', ''a'')], shuttingDown = False\<rparr>"
  by (simp add: lobby_def handler_defs)

lemma alone_eq:
  "alone = \<lparr>rooms = [(''ABC123'', the_room\<lparr>memberCount := 1\<rparr>)],
     members = [(''ABC123'', [(''a'', ann)])],
     socketToRoom = [(''a'', ann_info)],
     cleanupInterval = True, authKey = ''key'', sockets = [''a''],
     adapter = [(''a'', ''a''), (''a'', ''ABC123'')], shuttingDown = False\<rparr>"
  by (simp add: alone_def lobby_eq example_defs handler_defs)

lemma two_in_room_eq:
  "two_in_room = \<lparr>rooms = [(''ABC123'', the_room)],
     members = [(''ABC123'', [(''a'', ann), (''b'', guest ''b'' ''Bob'' 2000)])],
     socketToRoom = [(''a'', ann_info), (''b'', bob_info)],
     cleanupInterval = True, authKey = ''key'', sockets = [''a'', ''b''],
     adapter = [(''a'', ''a''), (''a'', ''ABC123''), (''b'', ''b''), (''b'', ''ABC123'')],
     shuttingDown = False\<rparr>"
  by (simp add: two_in_room_def alone_eq example_defs handler_defs)

lemma locked_room_eq:
  "locked_room = \<lparr>rooms = [(''ABC123'', the_room\<lparr>memberCount := 1, password := Some ''secret''\<rparr>)],
     members = [(''ABC123'', [(''a'', ann)])],
     socketToRoom = [(''a'', ann_info)],
     cleanupInterval = True, authKey = ''key'', sockets = [''a'', ''b''],
     adapter = [(''a'', ''a''), (''a'', ''ABC123''), (''b'', ''b'')], shuttingDown = False\<rparr>"
  by (simp add: locked_room_def lobby_eq example_defs handler_defs)

lemma orphaned_eq:
  "orphaned = \<lparr>rooms = [], members = [], socketToRoom = [(''a'', ann_info)],
     cleanupInterval = True, authKey = ''key'', sockets = [''a''],
     adapter = [(''a'', ''a''), (''a'', ''ABC123'')], shuttingDown = False\<rparr>"
  by (simp add: orphaned_def alone_eq example_defs handler_defs)

lemma three_connected_eq:
  "three_connected = two_in_room\<lparr>sockets := [''a'', ''b'', ''c''],
     adapter := [(''a'', ''a''), (''a'', ''ABC123''), (''b'', ''b''), (''b'', ''ABC123''),
                 (''c'', ''c'')]\<rparr>"
  by (simp add: three_connected_def two_in_room_eq handler_defs)

lemma reachable_lobby: "reachable lobby"
  unfolding lobby_def by (rule reachable_run) (rule reachable.start)

lemma reachable_alone: "reachable alone"
  unfolding alone_def by (rule reachable_run) (rule reachable_lobby)

lemma reachable_two_in_room: "reachable two_in_room"
  unfolding two_in_room_def by (rule reachable_run) (rule reachable_alone)

lemma reachable_locked_room: "reachable locked_room"
  unfolding locked_room_def by (rule reachable_run) (rule reachable_lobby)

lemma playing_eq:
  "playing = two_in_room\<lparr>rooms :=
     [(''ABC123'', the_room\<lparr>currentState := Some ''playing at 120''\<rparr>)]\<rparr>"
  by (simp add: playing_def two_in_room_eq example_defs handler_defs)

lemma two_rooms_eq:
  "two_rooms = \<lparr>rooms = [(''ABC123'', the_room\<lparr>currentState := Some ''playing at 120''\<rparr>),
                          (''DEF456'', second_room)],
     members = [(''ABC123'', [(''a'', ann), (''b'', guest ''b'' ''Bob'' 2000)]),
                (''DEF456'', [(''b'', \<lparr>m_id = ''b'', m_name = ''Bob'', m_isOwner = True,
                                       lastHeartbeat = 3000\<rparr>)])],
     socketToRoom = [(''a'', ann_info),
                     (''b'', \<lparr>roomId = ''DEF456'', userId = ''b'', userName = ''Bob'', isOwner = True\<rparr>)],
     cleanupInterval = True, authKey = ''key'', sockets = [''a'', ''b''],
     adapter = [(''a'', ''a''), (''a'', ''ABC123''), (''b'', ''b''), (''b'', ''ABC123''),
                (''b'', ''DEF456'')],
     shuttingDown = False\<rparr>"
  by (simp add: two_rooms_def playing_eq two_in_room_eq second_room_def example_defs handler_defs)


section \<open>Member count\<close>

text \<open>
  C1: in every reachable state, whatever events led to it, each existing room has a
  membership map and its \<open>memberCount\<close> is the number of entries of that map.
  The reachable states are the states between two events, which are the points
  where the store can be observed.
\<close>

theorem memberCount_invariant:
  assumes "reachable s" and "map_of (rooms s) rid = Some room"
  shows "\<exists>ms. map_of (members s) rid = Some ms \<and> memberCount room = length ms \<and>
              length ms = card (dom (map_of ms))"
proof -
  from assms(1) have w: "store_ok (rooms s) (members s)"
    using reachable_wf wf_def by blast
  with assms(2) obtain ms where ms: "map_of (members s) rid = Some ms" "memberCount room = length ms"
    unfolding store_ok_def by blast
  from w ms(1) have "distinct (map fst ms)" by (rule store_ok_members_distinct)
  then have "card (dom (map_of ms)) = length ms"
    by (simp add: dom_map_of_conv_image_fst distinct_card flip: set_map)
  with ms show ?thesis by simp
qed

theorem memberCount_invariant_witness:
  "reachable two_in_room \<and> map_of (rooms two_in_room) ''ABC123'' = Some the_room \<and>
   (\<exists>ms. map_of (members two_in_room) ''ABC123'' = Some ms \<and> memberCount the_room = length ms \<and>
         length ms = card (dom (map_of ms)))"
proof -
  have m: "map_of (rooms two_in_room) ''ABC123'' = Some the_room"
    by (simp add: two_in_room_eq)
  from reachable_two_in_room m memberCount_invariant [OF reachable_two_in_room m]
  show ?thesis by simp
qed

section \<open>Joining a room\<close>

lemma subscribers_join_other:
  "filter (\<lambda>x. x \<noteq> sid) (subscribers (socket_join sid r ad) r') =
   filter (\<lambda>x. x \<noteq> sid) (subscribers ad r')"
  by (simp add: subscribers_def socket_join_def)

lemma subscribers_join_self: "sid \<in> set (subscribers (socket_join sid r ad) r)"
  by (force simp: subscribers_def socket_join_def)

lemma join_unknown_room:
  "map_of (rooms s) rid = None \<Longrightarrow>
   on_room_join s sid rid pw uname now = (s, [callback sid (MsgJoinAck (Inl RoomNotFound))])"
  by (simp add: on_room_join_def)

lemma join_bad_password:
  "map_of (rooms s) rid = Some room \<Longrightarrow> truthy (password room) \<Longrightarrow> password room \<noteq> pw \<Longrightarrow>
   on_room_join s sid rid pw uname now = (s, [callback sid (MsgJoinAck (Inl BadPassword))])"
  by (simp add: on_room_join_def)

lemma join_success:
  assumes "map_of (rooms s) rid = Some room" "\<not> (truthy (password room) \<and> password room \<noteq> pw)"
    "map_of (members s) rid = Some ms"
  shows "on_room_join s sid rid pw uname now =
    (s\<lparr>members := AList.update rid (AList.update sid (guest sid uname now) ms) (members s),
       rooms := AList.update rid
          (room\<lparr>memberCount := length (AList.update sid (guest sid uname now) ms)\<rparr>) (rooms s),
       socketToRoom := AList.update sid
          \<lparr>roomId = rid, userId = sid, userName = uname, isOwner = False\<rparr> (socketToRoom s),
       adapter := socket_join sid rid (adapter s)\<rparr>,
     [\<lparr>dest = Broadcast sid rid, message = MsgRoomMemberJoined (guest sid uname now),
       recipients = filter (\<lambda>x. x \<noteq> sid) (subscribers (adapter s) rid)\<rparr>,
      \<lparr>dest = Callback sid,
       message = MsgJoinAck (Inr (room\<lparr>memberCount := length (AList.update sid (guest sid uname now) ms)\<rparr>,
                                 map snd (AList.update sid (guest sid uname now) ms))),
       recipients = [sid]\<rparr>])"
  using assms
  by (simp add: on_room_join_def Let_def guest_def socket_to_def callback_def subscribers_join_other)

text \<open>
  C3: a join of an unknown room id is answered with \<open>RoomNotFound\<close>, a join of a
  room that has a password (a non-empty one) with another password, or none, is
  answered with \<open>BadPassword\<close>, and both leave the whole state as it was. Otherwise
  the joiner is entered in the membership map as a guest, \<open>memberCount\<close> becomes the
  size of the map, the session pointer is registered, the connections that were in
  the room's group, without the joiner, are sent the new member, and the joiner is
  answered with the room and the list of all members.
\<close>

theorem join_room_outcomes:
  assumes "reachable s"
  shows "(map_of (rooms s) rid = None \<longrightarrow>
            on_room_join s sid rid pw uname now = (s, [callback sid (MsgJoinAck (Inl RoomNotFound))])) \<and>
         (\<forall>room. map_of (rooms s) rid = Some room \<and> truthy (password room) \<and> password room \<noteq> pw \<longrightarrow>
            on_room_join s sid rid pw uname now = (s, [callback sid (MsgJoinAck (Inl BadPassword))])) \<and>
         (\<forall>room. map_of (rooms s) rid = Some room \<and> \<not> (truthy (password room) \<and> password room \<noteq> pw) \<longrightarrow>
            (\<exists>ms ms' room' s'.
               map_of (members s) rid = Some ms \<and>
               ms' = AList.update sid (guest sid uname now) ms \<and>
               room' = room\<lparr>memberCount := length ms'\<rparr> \<and>
               on_room_join s sid rid pw uname now =
                 (s', [\<lparr>dest = Broadcast sid rid, message = MsgRoomMemberJoined (guest sid uname now),
                        recipients = filter (\<lambda>x. x \<noteq> sid) (subscribers (adapter s) rid)\<rparr>,
                       \<lparr>dest = Callback sid, message = MsgJoinAck (Inr (room', map snd ms')),
                        recipients = [sid]\<rparr>]) \<and>
               map_of (members s') rid = Some ms' \<and>
               map_of ms' sid = Some (guest sid uname now) \<and>
               map_of (rooms s') rid = Some room' \<and>
               map_of (socketToRoom s') sid =
                 Some \<lparr>roomId = rid, userId = sid, userName = uname, isOwner = False\<rparr> \<and>
               sid \<in> set (subscribers (adapter s') rid)))"
proof (intro conjI allI impI)
  show "on_room_join s sid rid pw uname now = (s, [callback sid (MsgJoinAck (Inl RoomNotFound))])"
    if "map_of (rooms s) rid = None"
    using that by (rule join_unknown_room)
  show "on_room_join s sid rid pw uname now = (s, [callback sid (MsgJoinAck (Inl BadPassword))])"
    if "map_of (rooms s) rid = Some room \<and> truthy (password room) \<and> password room \<noteq> pw" for room
    using that by (auto intro: join_bad_password)
next
  fix room
  assume a: "map_of (rooms s) rid = Some room \<and> \<not> (truthy (password room) \<and> password room \<noteq> pw)"
  from assms have "store_ok (rooms s) (members s)"
    using reachable_wf wf_def by blast
  with a obtain ms where ms: "map_of (members s) rid = Some ms"
    unfolding store_ok_def by blast
  from a have a1: "map_of (rooms s) rid = Some room"
    and a2: "\<not> (truthy (password room) \<and> password room \<noteq> pw)" by simp_all
  note j = join_success [OF a1 a2 ms, of sid uname now]
  show "\<exists>ms ms' room' s'.
               map_of (members s) rid = Some ms \<and>
               ms' = AList.update sid (guest sid uname now) ms \<and>
               room' = room\<lparr>memberCount := length ms'\<rparr> \<and>
               on_room_join s sid rid pw uname now =
                 (s', [\<lparr>dest = Broadcast sid rid, message = MsgRoomMemberJoined (guest sid uname now),
                        recipients = filter (\<lambda>x. x \<noteq> sid) (subscribers (adapter s) rid)\<rparr>,
                       \<lparr>dest = Callback sid, message = MsgJoinAck (Inr (room', map snd ms')),
                        recipients = [sid]\<rparr>]) \<and>
               map_of (members s') rid = Some ms' \<and>
               map_of ms' sid = Some (guest sid uname now) \<and>
               map_of (rooms s') rid = Some room' \<and>
               map_of (socketToRoom s') sid =
                 Some \<lparr>roomId = rid, userId = sid, userName = uname, isOwner = False\<rparr> \<and>
               sid \<in> set (subscribers (adapter s') rid)"
    unfolding j using ms by (simp add: update_conv' subscribers_join_self)
qed

theorem join_room_outcomes_witness:
  "reachable locked_room \<and>
   map_of (rooms locked_room) ''NOROOM'' = None \<and>
   on_room_join locked_room ''b'' ''NOROOM'' None ''Bob'' 2000 =
     (locked_room, [callback ''b'' (MsgJoinAck (Inl RoomNotFound))]) \<and>
   map_of (rooms locked_room) ''ABC123'' =
     Some (the_room\<lparr>memberCount := 1, password := Some ''secret''\<rparr>) \<and>
   on_room_join locked_room ''b'' ''ABC123'' (Some ''wrong'') ''Bob'' 2000 =
     (locked_room, [callback ''b'' (MsgJoinAck (Inl BadPassword))]) \<and>
   snd (on_room_join locked_room ''b'' ''ABC123'' (Some ''secret'') ''Bob'' 2000) =
     [\<lparr>dest = Broadcast ''b'' ''ABC123'', message = MsgRoomMemberJoined (guest ''b'' ''Bob'' 2000),
       recipients = [''a'']\<rparr>,
      \<lparr>dest = Callback ''b'',
       message = MsgJoinAck (Inr (the_room\<lparr>password := Some ''secret''\<rparr>,
                                 [ann, guest ''b'' ''Bob'' 2000])),
       recipients = [''b'']\<rparr>]"
proof -
  note r = reachable_locked_room
  have m0: "map_of (rooms locked_room) ''NOROOM'' = None"
    and m1: "map_of (rooms locked_room) ''ABC123'' =
      Some (the_room\<lparr>memberCount := 1, password := Some ''secret''\<rparr>)"
    and m2: "map_of (members locked_room) ''ABC123'' = Some [(''a'', ann)]"
    and ad: "subscribers (adapter locked_room) ''ABC123'' = [''a'']"
    by (simp_all add: locked_room_eq subscribers_def)
  have p: "truthy (password (the_room\<lparr>memberCount := 1, password := Some ''secret''\<rparr>))"
    by simp
  from join_room_outcomes [OF r, of "''NOROOM''" "''b''" None "''Bob''" 2000] m0
  have 1: "on_room_join locked_room ''b'' ''NOROOM'' None ''Bob'' 2000 =
     (locked_room, [callback ''b'' (MsgJoinAck (Inl RoomNotFound))])" by blast
  from join_room_outcomes [OF r, of "''ABC123''" "''b''" "Some ''wrong''" "''Bob''" 2000] m1 p
  have 2: "on_room_join locked_room ''b'' ''ABC123'' (Some ''wrong'') ''Bob'' 2000 =
     (locked_room, [callback ''b'' (MsgJoinAck (Inl BadPassword))])" by simp
  from join_room_outcomes [OF r, of "''ABC123''" "''b''" "Some ''secret''" "''Bob''" 2000] m1 m2 ad
  have 3: "snd (on_room_join locked_room ''b'' ''ABC123'' (Some ''secret'') ''Bob'' 2000) =
     [\<lparr>dest = Broadcast ''b'' ''ABC123'', message = MsgRoomMemberJoined (guest ''b'' ''Bob'' 2000),
       recipients = [''a'']\<rparr>,
      \<lparr>dest = Callback ''b'',
       message = MsgJoinAck (Inr (the_room\<lparr>password := Some ''secret''\<rparr>,
                                 [ann, guest ''b'' ''Bob'' 2000])),
       recipients = [''b'']\<rparr>]"
    by (auto simp: the_room_def ann_def)
  from r m0 m1 1 2 3 show ?thesis by blast
qed

text \<open>
  C10: when the stored password of a room is absent or the empty string, a join
  is never answered with \<open>BadPassword\<close>, whatever password is supplied or none:
  the answer is the success acknowledgement.
\<close>

theorem empty_password_accepts:
  assumes "map_of (rooms s) rid = Some room" and "password room = None \<or> password room = Some []"
  shows "callback sid (MsgJoinAck (Inl BadPassword)) \<notin> set (snd (on_room_join s sid rid pw uname now)) \<and>
         (\<exists>room' ms'. snd (on_room_join s sid rid pw uname now) =
            [socket_to (fst (on_room_join s sid rid pw uname now)) sid rid
               (MsgRoomMemberJoined (guest sid uname now)),
             callback sid (MsgJoinAck (Inr (room', ms')))])"
proof -
  from assms(2) have "\<not> truthy (password room)" by auto
  with assms(1) show ?thesis
    by (simp add: on_room_join_def Let_def guest_def callback_def socket_to_def)
qed

theorem empty_password_accepts_witness:
  "map_of (rooms three_connected) ''ABC123'' = Some the_room \<and> password the_room = None \<and>
   callback ''c'' (MsgJoinAck (Inl BadPassword))
     \<notin> set (snd (on_room_join three_connected ''c'' ''ABC123'' (Some ''guess'') ''Cleo'' 3000)) \<and>
   callback ''c'' (MsgJoinAck (Inl BadPassword))
     \<notin> set (snd (on_room_join three_connected ''c'' ''ABC123'' None ''Cleo'' 3000))"
proof -
  have m: "map_of (rooms three_connected) ''ABC123'' = Some the_room"
    by (simp add: three_connected_eq two_in_room_eq)
  have p: "password the_room = None \<or> password the_room = Some []"
    by (simp add: the_room_def)
  from empty_password_accepts [OF m p, of "''c''" "Some ''guess''" "''Cleo''" 3000]
    empty_password_accepts [OF m p, of "''c''" None "''Cleo''" 3000] m
  show ?thesis by (simp add: the_room_def)
qed

section \<open>Relays\<close>

lemma relay_in_room:
  "map_of (socketToRoom s) sid = Some info \<Longrightarrow>
   relay m s sid = (s, [socket_to s sid (roomId info) m])"
  by (simp add: relay_def)

text \<open>
  C9: a seek, play or pause event of a connection that has a session pointer is
  sent on unchanged to the group of the pointer's room without the sender,
  whether or not the pointer is marked owner, and the state after the event is
  the state before it.
\<close>

theorem relay_frame:
  assumes "map_of (socketToRoom s) sid = Some info"
  shows "handle s sid (EvPlaySeek ct) = (s, [socket_to s sid (roomId info) (MsgPlaySeek ct)]) \<and>
         handle s sid EvPlayPlay = (s, [socket_to s sid (roomId info) MsgPlayPlay]) \<and>
         handle s sid EvPlayPause = (s, [socket_to s sid (roomId info) MsgPlayPause]) \<and>
         (\<forall>m. dest (socket_to s sid (roomId info) m) = Broadcast sid (roomId info) \<and>
              message (socket_to s sid (roomId info) m) = m \<and>
              recipients (socket_to s sid (roomId info) m) =
                filter (\<lambda>x. x \<noteq> sid) (subscribers (adapter s) (roomId info)) \<and>
              sid \<notin> set (recipients (socket_to s sid (roomId info) m)))"
  using assms
  by (simp add: on_play_seek_def on_play_play_def on_play_pause_def relay_in_room socket_to_def)

theorem relay_frame_witness:
  "map_of (socketToRoom two_in_room) ''b'' = Some bob_info \<and> \<not> isOwner bob_info \<and>
   handle two_in_room ''b'' (EvPlaySeek ''42.5'') =
     (two_in_room, [\<lparr>dest = Broadcast ''b'' ''ABC123'', message = MsgPlaySeek ''42.5'',
                      recipients = [''a'']\<rparr>])"
proof -
  have p: "map_of (socketToRoom two_in_room) ''b'' = Some bob_info"
    by (simp add: two_in_room_eq)
  have ad: "subscribers (adapter two_in_room) ''ABC123'' = [''a'', ''b'']"
    by (simp add: two_in_room_eq subscribers_def)
  from relay_frame [OF p, of "''42.5''"] p ad show ?thesis
    by (simp add: socket_to_def bob_info_def)
qed

section \<open>Owner-only playback changes\<close>

lemma owner_set_state_owner:
  assumes "map_of (socketToRoom s) sid = Some info" "isOwner info"
    "map_of (rooms s) (roomId info) = Some room"
  shows "owner_set_state mk s sid st =
    (s\<lparr>rooms := AList.update (roomId info) (room\<lparr>currentState := Some st\<rparr>) (rooms s)\<rparr>,
     [socket_to s sid (roomId info) (mk st)])"
  using assms by (simp add: owner_set_state_def Let_def socket_to_def)

lemma owner_set_state_ignored:
  assumes "map_of (socketToRoom s) sid = None \<or>
     (\<exists>info. map_of (socketToRoom s) sid = Some info \<and>
        (\<not> isOwner info \<or> map_of (rooms s) (roomId info) = None))"
  shows "owner_set_state mk s sid st = (s, [])"
  using assms by (auto simp: owner_set_state_def)

text \<open>
  C4, as stated, fails: Ann's session pointer is marked owner, her room has been
  deleted by the reconciler, and her \<open>play:update\<close> changes nothing and is sent to
  nobody.
\<close>

theorem owner_flag_without_room_counterexample:
  "map_of (socketToRoom orphaned) ''a'' = Some ann_info \<and> isOwner ann_info \<and>
   ''a'' \<in> set (sockets orphaned) \<and>
   step orphaned (Client ''a'' (EvPlayUpdate ''paused at 120'')) = (orphaned, [])"
  by (simp add: orphaned_eq ann_info_def on_play_update_def owner_set_state_def)

text \<open>
  C4, amended: when the caller's session pointer is marked owner and the room it
  names exists, \<open>play:update\<close>, \<open>play:change\<close> and \<open>live:change\<close> store the given
  state as the room's current state, change nothing else, and send the state to
  the room's group without the sender. When the caller has no session pointer,
  or the pointer is not marked owner, or the room it names no longer exists, the
  event changes nothing and nothing is sent.
\<close>

theorem owner_playback_change:
  "(\<forall>info room. map_of (socketToRoom s) sid = Some info \<and> isOwner info \<and>
       map_of (rooms s) (roomId info) = Some room \<longrightarrow>
     handle s sid (EvPlayUpdate st) =
       (s\<lparr>rooms := AList.update (roomId info) (room\<lparr>currentState := Some st\<rparr>) (rooms s)\<rparr>,
        [socket_to s sid (roomId info) (MsgPlayUpdate st)]) \<and>
     handle s sid (EvPlayChange st) =
       (s\<lparr>rooms := AList.update (roomId info) (room\<lparr>currentState := Some st\<rparr>) (rooms s)\<rparr>,
        [socket_to s sid (roomId info) (MsgPlayChange st)]) \<and>
     handle s sid (EvLiveChange st) =
       (s\<lparr>rooms := AList.update (roomId info) (room\<lparr>currentState := Some st\<rparr>) (rooms s)\<rparr>,
        [socket_to s sid (roomId info) (MsgLiveChange st)]) \<and>
     map_of (AList.update (roomId info) (room\<lparr>currentState := Some st\<rparr>) (rooms s)) (roomId info) =
       Some (room\<lparr>currentState := Some st\<rparr>) \<and>
     (\<forall>m. recipients (socket_to s sid (roomId info) m) =
             filter (\<lambda>x. x \<noteq> sid) (subscribers (adapter s) (roomId info)) \<and>
          sid \<notin> set (recipients (socket_to s sid (roomId info) m)))) \<and>
   (map_of (socketToRoom s) sid = None \<or>
      (\<exists>info. map_of (socketToRoom s) sid = Some info \<and>
         (\<not> isOwner info \<or> map_of (rooms s) (roomId info) = None)) \<longrightarrow>
     handle s sid (EvPlayUpdate st) = (s, []) \<and>
     handle s sid (EvPlayChange st) = (s, []) \<and>
     handle s sid (EvLiveChange st) = (s, []))"
proof (intro conjI allI impI)
  fix info room
  assume a: "map_of (socketToRoom s) sid = Some info \<and> isOwner info \<and>
       map_of (rooms s) (roomId info) = Some room"
  then have o: "owner_set_state mk s sid st =
    (s\<lparr>rooms := AList.update (roomId info) (room\<lparr>currentState := Some st\<rparr>) (rooms s)\<rparr>,
     [socket_to s sid (roomId info) (mk st)])" for mk
    by (intro owner_set_state_owner) simp_all
  show "handle s sid (EvPlayUpdate st) =
       (s\<lparr>rooms := AList.update (roomId info) (room\<lparr>currentState := Some st\<rparr>) (rooms s)\<rparr>,
        [socket_to s sid (roomId info) (MsgPlayUpdate st)])"
    by (simp add: on_play_update_def o)
  show "handle s sid (EvPlayChange st) =
       (s\<lparr>rooms := AList.update (roomId info) (room\<lparr>currentState := Some st\<rparr>) (rooms s)\<rparr>,
        [socket_to s sid (roomId info) (MsgPlayChange st)])"
    by (simp add: on_play_change_def o)
  show "handle s sid (EvLiveChange st) =
       (s\<lparr>rooms := AList.update (roomId info) (room\<lparr>currentState := Some st\<rparr>) (rooms s)\<rparr>,
        [socket_to s sid (roomId info) (MsgLiveChange st)])"
    by (simp add: on_live_change_def o)
  show "map_of (AList.update (roomId info) (room\<lparr>currentState := Some st\<rparr>) (rooms s)) (roomId info) =
       Some (room\<lparr>currentState := Some st\<rparr>)"
    by (simp add: update_conv')
  show "recipients (socket_to s sid (roomId info) m) =
          filter (\<lambda>x. x \<noteq> sid) (subscribers (adapter s) (roomId info))" for m
    by (simp add: socket_to_def)
  show "sid \<notin> set (recipients (socket_to s sid (roomId info) m))" for m
    by (simp add: socket_to_def)
next
  assume a: "map_of (socketToRoom s) sid = None \<or>
      (\<exists>info. map_of (socketToRoom s) sid = Some info \<and>
         (\<not> isOwner info \<or> map_of (rooms s) (roomId info) = None))"
  then show "handle s sid (EvPlayUpdate st) = (s, [])"
    and "handle s sid (EvPlayChange st) = (s, [])"
    and "handle s sid (EvLiveChange st) = (s, [])"
    by (simp_all add: on_play_update_def on_play_change_def on_live_change_def owner_set_state_ignored)
qed

theorem owner_playback_change_witness:
  "map_of (socketToRoom two_in_room) ''a'' = Some ann_info \<and> isOwner ann_info \<and>
   map_of (rooms two_in_room) (roomId ann_info) = Some the_room \<and>
   handle two_in_room ''a'' (EvPlayUpdate ''playing at 120'') =
     (two_in_room\<lparr>rooms := [(''ABC123'', the_room\<lparr>currentState := Some ''playing at 120''\<rparr>)]\<rparr>,
      [\<lparr>dest = Broadcast ''a'' ''ABC123'', message = MsgPlayUpdate ''playing at 120'',
        recipients = [''b'']\<rparr>]) \<and>
   map_of (socketToRoom two_in_room) ''b'' = Some bob_info \<and> \<not> isOwner bob_info \<and>
   handle two_in_room ''b'' (EvPlayUpdate ''playing at 120'') = (two_in_room, [])"
proof -
  have a: "map_of (socketToRoom two_in_room) ''a'' = Some ann_info"
    and b: "map_of (socketToRoom two_in_room) ''b'' = Some bob_info"
    and m: "map_of (rooms two_in_room) (roomId ann_info) = Some the_room"
    and rs: "rooms two_in_room = [(''ABC123'', the_room)]"
    and ad: "subscribers (adapter two_in_room) ''ABC123'' = [''a'', ''b'']"
    by (simp_all add: two_in_room_eq ann_info_def subscribers_def)
  have o: "isOwner ann_info" "\<not> isOwner bob_info" "roomId ann_info = ''ABC123''"
    by (simp_all add: ann_info_def bob_info_def)
  from owner_playback_change [of two_in_room "''a''" "''playing at 120''"] a m o
  have 1: "handle two_in_room ''a'' (EvPlayUpdate ''playing at 120'') =
     (two_in_room\<lparr>rooms := AList.update ''ABC123'' (the_room\<lparr>currentState := Some ''playing at 120''\<rparr>)
          (rooms two_in_room)\<rparr>,
      [socket_to two_in_room ''a'' ''ABC123'' (MsgPlayUpdate ''playing at 120'')])"
    by simp
  from owner_playback_change [of two_in_room "''b''" "''playing at 120''"] b o
  have 2: "handle two_in_room ''b'' (EvPlayUpdate ''playing at 120'') = (two_in_room, [])"
    by blast
  from a b m o 2 show ?thesis
    unfolding 1 by (simp add: rs ad socket_to_def)
qed

section \<open>The last member leaves\<close>






section \<open>Heartbeat\<close>

lemma heartbeat_effect:
  assumes "map_of (socketToRoom s) sid = Some info"
  shows "snd (on_heartbeat s sid t1 t2 t3) = [socket_emit sid (MsgHeartbeatPong t3)]"
    and "map_of (members s) (roomId info) = Some ms \<Longrightarrow> map_of ms (userId info) = Some m \<Longrightarrow>
         map_of (members (fst (on_heartbeat s sid t1 t2 t3))) (roomId info) =
           Some (AList.update (userId info) (m\<lparr>lastHeartbeat := t1\<rparr>) ms)"
    and "isOwner info \<Longrightarrow> map_of (rooms s) (roomId info) = Some room \<Longrightarrow>
         map_of (rooms (fst (on_heartbeat s sid t1 t2 t3))) (roomId info) =
           Some (room\<lparr>lastOwnerHeartbeat := t2\<rparr>)"
    and "\<not> isOwner info \<Longrightarrow> rooms (fst (on_heartbeat s sid t1 t2 t3)) = rooms s"
  using assms
  by (auto simp: on_heartbeat_def Let_def update_conv' split: option.splits)

text \<open>
  C6, as stated, fails: a connection that passed authentication and has joined no
  room sends a heartbeat and receives no pong.
\<close>

theorem heartbeat_without_room_counterexample:
  "''a'' \<in> set (sockets lobby) \<and>
   step lobby (Client ''a'' (EvHeartbeat 5000 5000 5000)) = (lobby, [])"
  by (simp add: lobby_eq on_heartbeat_def)

text \<open>
  C6, amended: a heartbeat of a connection that has a session pointer sets the
  last-heartbeat time of the caller's member, when the membership map of the
  pointer's room holds one, sets the room's last-owner-heartbeat time when the
  pointer is marked owner and the room exists, leaves the rooms alone when the
  pointer is not marked owner, and sends one pong with the server's clock
  reading to the caller alone. A heartbeat of a connection without a session
  pointer changes nothing and is not answered.
\<close>

theorem heartbeat_in_room:
  "(\<forall>info. map_of (socketToRoom s) sid = Some info \<longrightarrow>
      snd (handle s sid (EvHeartbeat t1 t2 t3)) =
        [\<lparr>dest = ToSocket sid, message = MsgHeartbeatPong t3, recipients = [sid]\<rparr>] \<and>
      (\<forall>ms m. map_of (members s) (roomId info) = Some ms \<and> map_of ms (userId info) = Some m \<longrightarrow>
         (\<exists>ms'. map_of (members (fst (handle s sid (EvHeartbeat t1 t2 t3)))) (roomId info) = Some ms' \<and>
                map_of ms' (userId info) = Some (m\<lparr>lastHeartbeat := t1\<rparr>))) \<and>
      (\<forall>room. isOwner info \<and> map_of (rooms s) (roomId info) = Some room \<longrightarrow>
         map_of (rooms (fst (handle s sid (EvHeartbeat t1 t2 t3)))) (roomId info) =
           Some (room\<lparr>lastOwnerHeartbeat := t2\<rparr>)) \<and>
      (\<not> isOwner info \<longrightarrow> rooms (fst (handle s sid (EvHeartbeat t1 t2 t3))) = rooms s)) \<and>
   (map_of (socketToRoom s) sid = None \<longrightarrow> handle s sid (EvHeartbeat t1 t2 t3) = (s, []))"
  by (auto simp: heartbeat_effect update_conv' socket_emit_def) (simp add: on_heartbeat_def)

theorem heartbeat_in_room_witness:
  "map_of (socketToRoom two_in_room) ''a'' = Some ann_info \<and> isOwner ann_info \<and>
   map_of (rooms two_in_room) (roomId ann_info) = Some the_room \<and>
   snd (handle two_in_room ''a'' (EvHeartbeat 7000 7001 7002)) =
     [\<lparr>dest = ToSocket ''a'', message = MsgHeartbeatPong 7002, recipients = [''a'']\<rparr>] \<and>
   map_of (rooms (fst (handle two_in_room ''a'' (EvHeartbeat 7000 7001 7002)))) (roomId ann_info) =
     Some (the_room\<lparr>lastOwnerHeartbeat := 7001\<rparr>)"
proof -
  have a: "map_of (socketToRoom two_in_room) ''a'' = Some ann_info"
    and m: "map_of (rooms two_in_room) (roomId ann_info) = Some the_room"
    by (simp_all add: two_in_room_eq ann_info_def)
  have o: "isOwner ann_info" by (simp add: ann_info_def)
  from heartbeat_in_room [of two_in_room "''a''" 7000 7001 7002] a m o show ?thesis
    by simp
qed

section \<open>Room identifiers\<close>

lemma create_effect:
  "map_of (rooms (fst (on_room_create s sid d r1 r2 t1 t2 t3))) =
     (map_of (rooms s))(generateRoomId r1 \<mapsto>
        \<lparr>r_id = generateRoomId r1, r_name = d_name d, description = d_description d,
         password = d_password d, isPublic = d_isPublic d, ownerId = sid,
         ownerName = d_userName d, ownerToken = generateRoomId r2, memberCount = 1,
         currentState = None, createdAt = t1, lastOwnerHeartbeat = t2\<rparr>)"
  "map_of (members (fst (on_room_create s sid d r1 r2 t1 t2 t3))) =
     (map_of (members s))(generateRoomId r1 \<mapsto>
        [(sid, \<lparr>m_id = sid, m_name = d_userName d, m_isOwner = True, lastHeartbeat = t3\<rparr>)])"
  by (simp_all add: on_room_create_def Let_def update_conv')

text \<open>
  C7, as stated, fails: the room of Ann and Bob exists under \<open>ABC123\<close>, the
  generator yields \<open>ABC123\<close> again for another draw, and Cleo's \<open>room:create\<close>
  replaces the room and its membership map by hers.
\<close>

theorem room_id_collision_counterexample:
  "map_of (rooms three_connected) ''ABC123'' = Some the_room \<and>
   map_of (members three_connected) ''ABC123'' =
     Some [(''a'', ann), (''b'', guest ''b'' ''Bob'' 2000)] \<and>
   generateRoomId ''0.abc123tuv'' = ''ABC123'' \<and>
   ''c'' \<in> set (sockets three_connected) \<and>
   map_of (rooms (fst (step three_connected (Client ''c'' cleo_creates)))) ''ABC123'' =
     Some \<lparr>r_id = ''ABC123'', r_name = ''Other'', description = None, password = None,
           isPublic = True, ownerId = ''c'', ownerName = ''Cleo'', ownerToken = ''ZZZZZZ'',
           memberCount = 1, currentState = None, createdAt = 5000, lastOwnerHeartbeat = 5000\<rparr> \<and>
   map_of (members (fst (step three_connected (Client ''c'' cleo_creates)))) ''ABC123'' =
     Some [(''c'', \<lparr>m_id = ''c'', m_name = ''Cleo'', m_isOwner = True, lastHeartbeat = 5000\<rparr>)]"
  by (simp add: three_connected_eq two_in_room_eq cleo_creates_def create_effect movie_night_def
      generateRoomId_def toUpperCase_def substring_def upper_char_def)

text \<open>
  C7, amended: the room id of a \<open>room:create\<close> is computed from the random draw
  alone (characters 2 to 7 of its base-36 rendering, in upper case) and is not
  compared with the ids in the store. The create leaves the room and the
  membership map under every other id as they were, and puts the new room and
  its one-member map under the generated id, replacing what was there when the
  id was already in use.
\<close>

theorem create_room_effect:
  "(\<forall>k. k \<noteq> generateRoomId r1 \<longrightarrow>
      map_of (rooms (fst (on_room_create s sid d r1 r2 t1 t2 t3))) k = map_of (rooms s) k \<and>
      map_of (members (fst (on_room_create s sid d r1 r2 t1 t2 t3))) k = map_of (members s) k) \<and>
   map_of (rooms (fst (on_room_create s sid d r1 r2 t1 t2 t3))) (generateRoomId r1) =
     Some \<lparr>r_id = generateRoomId r1, r_name = d_name d, description = d_description d,
           password = d_password d, isPublic = d_isPublic d, ownerId = sid,
           ownerName = d_userName d, ownerToken = generateRoomId r2, memberCount = 1,
           currentState = None, createdAt = t1, lastOwnerHeartbeat = t2\<rparr> \<and>
   map_of (members (fst (on_room_create s sid d r1 r2 t1 t2 t3))) (generateRoomId r1) =
     Some [(sid, \<lparr>m_id = sid, m_name = d_userName d, m_isOwner = True, lastHeartbeat = t3\<rparr>)] \<and>
   generateRoomId r1 = map upper_char (take 6 (drop 2 r1))"
  by (simp add: create_effect) (simp add: generateRoomId_def toUpperCase_def substring_def)

theorem create_room_effect_witness:
  "''ABC123'' \<noteq> generateRoomId ''0.k3j9x0aaa'' \<and>
   map_of (rooms (fst (on_room_create three_connected ''c'' movie_night ''0.k3j9x0aaa'' ''0.zzzzzz''
      5000 5000 5000))) ''ABC123'' = Some the_room \<and>
   map_of (members (fst (on_room_create three_connected ''c'' movie_night ''0.k3j9x0aaa'' ''0.zzzzzz''
      5000 5000 5000))) ''ABC123'' = Some [(''a'', ann), (''b'', guest ''b'' ''Bob'' 2000)]"
proof -
  have g: "''ABC123'' \<noteq> generateRoomId ''0.k3j9x0aaa''"
    by (simp add: generateRoomId_def toUpperCase_def substring_def upper_char_def)
  have m: "map_of (rooms three_connected) ''ABC123'' = Some the_room"
    "map_of (members three_connected) ''ABC123'' = Some [(''a'', ann), (''b'', guest ''b'' ''Bob'' 2000)]"
    by (simp_all add: three_connected_eq two_in_room_eq)
  from create_room_effect [of "''0.k3j9x0aaa''" three_connected "''c''" movie_night "''0.zzzzzz''"
      5000 5000 5000] g m
  show ?thesis by simp
qed

section \<open>The reconciliation scan\<close>

lemma for_room_append [simp]: "for_room rid (a @ b) = for_room rid a @ for_room rid b"
  by (simp add: for_room_def)

lemma for_room_Nil [simp]: "for_room rid [] = []"
  by (simp add: for_room_def)

lemma for_room_io_to [simp]:
  "for_room rid (io_to s k m # out) =
     (if k = rid then io_to s k m # for_room rid out else for_room rid out)"
  by (simp add: for_room_def io_to_def)

lemma io_to_adapter: "adapter s' = adapter s \<Longrightarrow> io_to s' = io_to s"
  by (simp add: io_to_def fun_eq_iff)

lemma result_emitted_first_eq:
  "result (emitted_first out r) = (fst (result r), out @ snd (result r))"
  by (cases r) (auto simp: emitted_first_def)

lemma cleanup_room_frame:
  "adapter (fst (result (cleanup_room F now k rk s))) = adapter s"
  "cleanupInterval (fst (result (cleanup_room F now k rk s))) = cleanupInterval s"
  "shuttingDown (fst (result (cleanup_room F now k rk s))) = shuttingDown s"
  "socketToRoom (fst (result (cleanup_room F now k rk s))) = socketToRoom s"
  by (simp_all add: cleanup_room_def Let_def deleteRoom_def)

lemma cleanup_room_other:
  assumes "rid \<noteq> k"
  shows "map_of (rooms (fst (result (cleanup_room F now k rk s)))) rid = map_of (rooms s) rid"
    and "map_of (members (fst (result (cleanup_room F now k rk s)))) rid = map_of (members s) rid"
    and "for_room rid (snd (result (cleanup_room F now k rk s))) = []"
  using assms by (simp_all add: cleanup_room_def Let_def deleteRoom_def update_conv' delete_conv')

lemma cleanup_room_no_fault:
  "cleanup_room [] now rid room s = Returned (result (cleanup_room [] now rid room s))"
  by (simp add: cleanup_room_def Let_def)

lemma cleanup_room_self:
  "map_of (rooms (fst (result (cleanup_room [] now rid room s)))) rid =
     (if now - lastOwnerHeartbeat room > deleteTimeout then None
      else if now - lastOwnerHeartbeat room > clearStateTimeout \<and> currentState room \<noteq> None
      then Some (room\<lparr>currentState := None\<rparr>) else map_of (rooms s) rid)"
  "map_of (members (fst (result (cleanup_room [] now rid room s)))) rid =
     (if now - lastOwnerHeartbeat room > deleteTimeout then None else map_of (members s) rid)"
  "for_room rid (snd (result (cleanup_room [] now rid room s))) =
     (if now - lastOwnerHeartbeat room > clearStateTimeout \<and> currentState room \<noteq> None
      then [io_to s rid MsgStateCleared] else []) @
     (if now - lastOwnerHeartbeat room > deleteTimeout then [io_to s rid MsgRoomDeleted] else [])"
  by (auto simp: cleanup_room_def Let_def deleteRoom_def update_conv' delete_conv' io_to_def for_room_def)


lemma cleanup_scan_skip:
  "map_of (rooms s) k = None \<Longrightarrow> cleanup_scan F now (k # ks) s = cleanup_scan F now ks s"
  by simp

lemma cleanup_scan_returned:
  "map_of (rooms s) k = Some rk \<Longrightarrow> cleanup_room F now k rk s = Returned p \<Longrightarrow>
   cleanup_scan F now (k # ks) s = emitted_first (snd p) (cleanup_scan F now ks (fst p))"
  by (cases p) simp

lemma cleanup_scan_threw:
  "map_of (rooms s) k = Some rk \<Longrightarrow> cleanup_room F now k rk s = Threw p \<Longrightarrow>
   cleanup_scan F now (k # ks) s = Threw p"
  by (cases p) simp

lemma cleanup_scan_frame:
  "adapter (fst (result (cleanup_scan F now ks s))) = adapter s \<and>
   cleanupInterval (fst (result (cleanup_scan F now ks s))) = cleanupInterval s \<and>
   shuttingDown (fst (result (cleanup_scan F now ks s))) = shuttingDown s \<and>
   socketToRoom (fst (result (cleanup_scan F now ks s))) = socketToRoom s"
proof (induction ks arbitrary: s)
  case Nil
  show ?case by simp
next
  case (Cons k ks)
  show ?case
  proof (cases "map_of (rooms s) k")
    case None
    show ?thesis unfolding cleanup_scan_skip [OF None] by (rule Cons)
  next
    case (Some rk)
    show ?thesis
    proof (cases "cleanup_room F now k rk s")
      case (Returned p)
      have f: "adapter (fst p) = adapter s" "cleanupInterval (fst p) = cleanupInterval s"
        "shuttingDown (fst p) = shuttingDown s" "socketToRoom (fst p) = socketToRoom s"
        using cleanup_room_frame [where F = F and now = now and k = k and rk = rk and s = s]
        by (simp_all add: Returned)
      show ?thesis
        unfolding cleanup_scan_returned [OF Some Returned] result_emitted_first_eq
        using Cons [of "fst p"] f by simp
    next
      case (Threw p)
      have f: "adapter (fst p) = adapter s" "cleanupInterval (fst p) = cleanupInterval s"
        "shuttingDown (fst p) = shuttingDown s" "socketToRoom (fst p) = socketToRoom s"
        using cleanup_room_frame [where F = F and now = now and k = k and rk = rk and s = s]
        by (simp_all add: Threw)
      show ?thesis
        unfolding cleanup_scan_threw [OF Some Threw] using f by simp
    qed
  qed
qed

lemma cleanup_scan_other:
  "rid \<notin> set ks \<Longrightarrow>
   map_of (rooms (fst (result (cleanup_scan F now ks s)))) rid = map_of (rooms s) rid \<and>
   map_of (members (fst (result (cleanup_scan F now ks s)))) rid = map_of (members s) rid \<and>
   for_room rid (snd (result (cleanup_scan F now ks s))) = []"
proof (induction ks arbitrary: s)
  case Nil
  show ?case by simp
next
  case (Cons k ks)
  then have ne: "rid \<noteq> k" and nin: "rid \<notin> set ks" by auto
  show ?case
  proof (cases "map_of (rooms s) k")
    case None
    show ?thesis unfolding cleanup_scan_skip [OF None] by (rule Cons.IH [OF nin])
  next
    case (Some rk)
    note o = cleanup_room_other [OF ne, where F = F and now = now and rk = rk and s = s]
    show ?thesis
    proof (cases "cleanup_room F now k rk s")
      case (Returned p)
      from o have f: "map_of (rooms (fst p)) rid = map_of (rooms s) rid"
        "map_of (members (fst p)) rid = map_of (members s) rid" "for_room rid (snd p) = []"
        by (simp_all add: Returned)
      show ?thesis
        unfolding cleanup_scan_returned [OF Some Returned] result_emitted_first_eq
        using Cons.IH [OF nin, of "fst p"] f by simp
    next
      case (Threw p)
      from o have f: "map_of (rooms (fst p)) rid = map_of (rooms s) rid"
        "map_of (members (fst p)) rid = map_of (members s) rid" "for_room rid (snd p) = []"
        by (simp_all add: Threw)
      show ?thesis
        unfolding cleanup_scan_threw [OF Some Threw] using f by simp
    qed
  qed
qed

lemma cleanup_scan_no_fault:
  "cleanup_scan [] now ks s = Returned (result (cleanup_scan [] now ks s))"
proof (induction ks arbitrary: s)
  case Nil
  show ?case by simp
next
  case (Cons k ks)
  show ?case
  proof (cases "map_of (rooms s) k")
    case None
    show ?thesis unfolding cleanup_scan_skip [OF None] by (rule Cons)
  next
    case (Some rk)
    note r = cleanup_room_no_fault [of now k rk s]
    have "emitted_first out (Returned x) = Returned (result (emitted_first out (Returned x)))"
      for out and x :: "state \<times> emission list"
      by (cases x) (simp add: emitted_first_def)
    then show ?thesis
      unfolding cleanup_scan_returned [OF Some r]
      by (subst Cons) (subst (2) Cons, simp)
  qed
qed

lemma scan_hit_head:
  assumes nin: "rid \<notin> set ks" and m: "map_of (rooms s) rid = Some room"
  shows "map_of (rooms (fst (result (cleanup_scan [] now (rid # ks) s)))) rid =
     (if now - lastOwnerHeartbeat room > deleteTimeout then None
      else if now - lastOwnerHeartbeat room > clearStateTimeout \<and> currentState room \<noteq> None
      then Some (room\<lparr>currentState := None\<rparr>) else Some room) \<and>
   map_of (members (fst (result (cleanup_scan [] now (rid # ks) s)))) rid =
     (if now - lastOwnerHeartbeat room > deleteTimeout then None else map_of (members s) rid) \<and>
   for_room rid (snd (result (cleanup_scan [] now (rid # ks) s))) =
     (if now - lastOwnerHeartbeat room > clearStateTimeout \<and> currentState room \<noteq> None
      then [io_to s rid MsgStateCleared] else []) @
     (if now - lastOwnerHeartbeat room > deleteTimeout then [io_to s rid MsgRoomDeleted] else [])"
proof -
  define p where "p = result (cleanup_room [] now rid room s)"
  have r: "cleanup_room [] now rid room s = Returned p"
    unfolding p_def by (rule cleanup_room_no_fault)
  have self: "map_of (rooms (fst p)) rid =
     (if now - lastOwnerHeartbeat room > deleteTimeout then None
      else if now - lastOwnerHeartbeat room > clearStateTimeout \<and> currentState room \<noteq> None
      then Some (room\<lparr>currentState := None\<rparr>) else Some room)"
    "map_of (members (fst p)) rid =
     (if now - lastOwnerHeartbeat room > deleteTimeout then None else map_of (members s) rid)"
    "for_room rid (snd p) =
     (if now - lastOwnerHeartbeat room > clearStateTimeout \<and> currentState room \<noteq> None
      then [io_to s rid MsgStateCleared] else []) @
     (if now - lastOwnerHeartbeat room > deleteTimeout then [io_to s rid MsgRoomDeleted] else [])"
    unfolding p_def by (simp_all only: cleanup_room_self m)
  note rest = cleanup_scan_other [OF nin, where F = "[]" and now = now and s = "fst p"]
  have e: "result (cleanup_scan [] now (rid # ks) s) =
     (fst (result (cleanup_scan [] now ks (fst p))), snd p @ snd (result (cleanup_scan [] now ks (fst p))))"
    by (simp only: cleanup_scan_returned [OF m r] result_emitted_first_eq)
  show ?thesis
    unfolding e fst_conv snd_conv for_room_append
    by (simp only: rest self append_Nil2 simp_thms)
qed


lemma cleanup_scan_self:
  assumes "distinct ks" "rid \<in> set ks" "map_of (rooms s) rid = Some room"
  shows "map_of (rooms (fst (result (cleanup_scan [] now ks s)))) rid =
     (if now - lastOwnerHeartbeat room > deleteTimeout then None
      else if now - lastOwnerHeartbeat room > clearStateTimeout \<and> currentState room \<noteq> None
      then Some (room\<lparr>currentState := None\<rparr>) else Some room) \<and>
   map_of (members (fst (result (cleanup_scan [] now ks s)))) rid =
     (if now - lastOwnerHeartbeat room > deleteTimeout then None else map_of (members s) rid) \<and>
   for_room rid (snd (result (cleanup_scan [] now ks s))) =
     (if now - lastOwnerHeartbeat room > clearStateTimeout \<and> currentState room \<noteq> None
      then [io_to s rid MsgStateCleared] else []) @
     (if now - lastOwnerHeartbeat room > deleteTimeout then [io_to s rid MsgRoomDeleted] else [])"
  using assms
proof (induction ks arbitrary: s)
  case Nil
  then show ?case by simp
next
  case (Cons k ks)
  show ?case
  proof (cases "k = rid")
    case True
    with Cons.prems have nin: "rid \<notin> set ks" by simp
    show ?thesis unfolding True by (rule scan_hit_head [OF nin Cons.prems(3)])
  next
    case False
    with Cons.prems have d: "distinct ks" and i: "rid \<in> set ks" by auto
    show ?thesis
    proof (cases "map_of (rooms s) k")
      case None
      show ?thesis unfolding cleanup_scan_skip [OF None]
        by (rule Cons.IH [OF d i Cons.prems(3)])
    next
      case (Some rk)
      define p where "p = result (cleanup_room [] now k rk s)"
      have r: "cleanup_room [] now k rk s = Returned p"
        unfolding p_def by (rule cleanup_room_no_fault)
      from False have ne: "rid \<noteq> k" by simp
      have o: "map_of (rooms (fst p)) rid = map_of (rooms s) rid"
        "map_of (members (fst p)) rid = map_of (members s) rid"
        "for_room rid (snd p) = []"
        unfolding p_def by (rule cleanup_room_other [OF ne])+
      have f: "adapter (fst p) = adapter s"
        unfolding p_def by (rule cleanup_room_frame)
      from o Cons.prems(3) have m: "map_of (rooms (fst p)) rid = Some room" by simp
      from f have io: "io_to (fst p) = io_to s" by (rule io_to_adapter)
      have e: "result (cleanup_scan [] now (k # ks) s) =
        (fst (result (cleanup_scan [] now ks (fst p))),
         snd p @ snd (result (cleanup_scan [] now ks (fst p))))"
        by (simp only: cleanup_scan_returned [OF Some r] result_emitted_first_eq)
      show ?thesis
        unfolding e fst_conv snd_conv for_room_append
        using Cons.IH [OF d i m] by (simp only: o io append_Nil)
    qed
  qed
qed

lemma timer_fire_no_fault:
  "cleanupInterval s \<Longrightarrow> timer_fire [] now s = result (cleanup_callback [] now s)"
  unfolding timer_fire_def cleanup_callback_def
  by (subst cleanup_scan_no_fault) simp

lemma timer_fire_room:
  assumes "reachable s" "cleanupInterval s" "map_of (rooms s) rid = Some room"
  shows "map_of (rooms (fst (timer_fire [] now s))) rid =
     (if now - lastOwnerHeartbeat room > deleteTimeout then None
      else if now - lastOwnerHeartbeat room > clearStateTimeout \<and> currentState room \<noteq> None
      then Some (room\<lparr>currentState := None\<rparr>) else Some room) \<and>
   map_of (members (fst (timer_fire [] now s))) rid =
     (if now - lastOwnerHeartbeat room > deleteTimeout then None else map_of (members s) rid) \<and>
   for_room rid (snd (timer_fire [] now s)) =
     (if now - lastOwnerHeartbeat room > clearStateTimeout \<and> currentState room \<noteq> None
      then [io_to s rid MsgStateCleared] else []) @
     (if now - lastOwnerHeartbeat room > deleteTimeout then [io_to s rid MsgRoomDeleted] else [])"
proof -
  from assms(1) have d: "distinct (map fst (rooms s))"
    using reachable_wf unfolding wf_def store_ok_def by blast
  from assms(3) have i: "rid \<in> set (map fst (rooms s))"
    by (metis map_of_eq_None_iff option.distinct(1) set_map)
  show ?thesis
    unfolding timer_fire_no_fault [OF assms(2)] cleanup_callback_def
    by (rule cleanup_scan_self [OF d i assms(3)])
qed

lemma timer_fire_absent:
  assumes "cleanupInterval s" "map_of (rooms s) rid = None"
  shows "for_room rid (snd (timer_fire [] now s)) = []"
proof -
  from assms(2) have "rid \<notin> set (map fst (rooms s))"
    by (simp add: map_of_eq_None_iff)
  from cleanup_scan_other [OF this, of "[]" now s] show ?thesis
    unfolding timer_fire_no_fault [OF assms(1)] cleanup_callback_def by blast
qed

lemma timer_fire_keeps_timer:
  assumes "cleanupInterval s"
  shows "cleanupInterval (fst (timer_fire [] now s))"
  unfolding timer_fire_no_fault [OF assms] cleanup_callback_def
  using cleanup_scan_frame [of "[]" now "map fst (rooms s)" s] assms by simp

lemma broadcasts_for_room:
  "for_room rid out = xs \<Longrightarrow> broadcasts m rid out = length (filter (\<lambda>e. message e = m) xs)"
  by (simp add: broadcasts_def)

lemma message_io_to [simp]: "message (io_to s r m) = m"
  by (simp add: io_to_def)

text \<open>
  C2: on a tick of the reconciler (the timer is armed, nothing raises), for a room
  of the store: when more than 30 seconds have passed since the last owner
  heartbeat and the playback state is not null, exactly one \<open>state:cleared\<close> is
  sent to the room's group, the state is null afterwards if the room is still
  there, and the next tick, whenever it comes, sends no \<open>state:cleared\<close> for the
  room; when the state is null already, no \<open>state:cleared\<close> is sent; when more
  than 5 minutes have passed, exactly one \<open>room:deleted\<close> is sent to the whole
  group and the room and its membership map are gone afterwards, whatever
  members the map held.
\<close>

theorem reconciliation_tick:
  assumes "reachable s" and "cleanupInterval s" and "map_of (rooms s) rid = Some room"
  shows "(now - lastOwnerHeartbeat room > 30000 \<and> currentState room \<noteq> None \<longrightarrow>
            broadcasts MsgStateCleared rid (snd (timer_fire [] now s)) = 1 \<and>
            io_to s rid MsgStateCleared \<in> set (snd (timer_fire [] now s)) \<and>
            map_of (rooms (fst (timer_fire [] now s))) rid =
              (if now - lastOwnerHeartbeat room > 300000 then None
               else Some (room\<lparr>currentState := None\<rparr>)) \<and>
            (\<forall>now'. broadcasts MsgStateCleared rid
                      (snd (timer_fire [] now' (fst (timer_fire [] now s)))) = 0)) \<and>
         (currentState room = None \<longrightarrow>
            broadcasts MsgStateCleared rid (snd (timer_fire [] now s)) = 0) \<and>
         (now - lastOwnerHeartbeat room > 300000 \<longrightarrow>
            broadcasts MsgRoomDeleted rid (snd (timer_fire [] now s)) = 1 \<and>
            io_to s rid MsgRoomDeleted \<in> set (snd (timer_fire [] now s)) \<and>
            map_of (rooms (fst (timer_fire [] now s))) rid = None \<and>
            map_of (members (fst (timer_fire [] now s))) rid = None)"
proof -
  let ?s' = "fst (timer_fire [] now s)" and ?out = "snd (timer_fire [] now s)"
  note t = timer_fire_room [OF assms, of now]
  from t have rs: "map_of (rooms ?s') rid =
     (if now - lastOwnerHeartbeat room > deleteTimeout then None
      else if now - lastOwnerHeartbeat room > clearStateTimeout \<and> currentState room \<noteq> None
      then Some (room\<lparr>currentState := None\<rparr>) else Some room)" by blast
  from t have ms: "map_of (members ?s') rid =
     (if now - lastOwnerHeartbeat room > deleteTimeout then None else map_of (members s) rid)"
    by blast
  from t have fr: "for_room rid ?out =
     (if now - lastOwnerHeartbeat room > clearStateTimeout \<and> currentState room \<noteq> None
      then [io_to s rid MsgStateCleared] else []) @
     (if now - lastOwnerHeartbeat room > deleteTimeout then [io_to s rid MsgRoomDeleted] else [])"
    by blast
  have sub: "set (for_room rid ?out) \<subseteq> set ?out"
    by (simp add: for_room_def)
  have r': "reachable ?s'"
    using reachable.after [OF assms(1), of "Tick now []"] by simp
  have c': "cleanupInterval ?s'"
    using assms(2) by (rule timer_fire_keeps_timer)
  have again: "broadcasts MsgStateCleared rid (snd (timer_fire [] now' ?s')) = 0"
    if "now - lastOwnerHeartbeat room > 30000" "currentState room \<noteq> None" for now'
  proof (cases "map_of (rooms ?s') rid")
    case None
    from timer_fire_absent [OF c' None] show ?thesis
      by (simp add: broadcasts_def)
  next
    case (Some room')
    with rs that have n: "currentState room' = None"
      by (auto simp: clearStateTimeout_def split: if_splits)
    from timer_fire_room [OF r' c' Some, of now'] n show ?thesis
      by (simp add: broadcasts_def)
  qed
  have 1: "broadcasts MsgStateCleared rid ?out = 1"
    if "now - lastOwnerHeartbeat room > 30000" "currentState room \<noteq> None"
    using that by (simp add: broadcasts_for_room [OF fr] clearStateTimeout_def)
  have 2: "io_to s rid MsgStateCleared \<in> set ?out"
    if "now - lastOwnerHeartbeat room > 30000" "currentState room \<noteq> None"
    using that sub by (simp add: fr clearStateTimeout_def)
  have 3: "map_of (rooms ?s') rid =
      (if now - lastOwnerHeartbeat room > 300000 then None else Some (room\<lparr>currentState := None\<rparr>))"
    if "now - lastOwnerHeartbeat room > 30000" "currentState room \<noteq> None"
    using that by (simp add: rs clearStateTimeout_def deleteTimeout_def)
  have 4: "broadcasts MsgStateCleared rid ?out = 0" if "currentState room = None"
    using that by (simp add: broadcasts_for_room [OF fr])
  have 5: "broadcasts MsgRoomDeleted rid ?out = 1" if "now - lastOwnerHeartbeat room > 300000"
    using that by (simp add: broadcasts_for_room [OF fr] deleteTimeout_def)
  have 6: "io_to s rid MsgRoomDeleted \<in> set ?out" if "now - lastOwnerHeartbeat room > 300000"
    using that sub by (simp add: fr deleteTimeout_def)
  have 7: "map_of (rooms ?s') rid = None" "map_of (members ?s') rid = None"
    if "now - lastOwnerHeartbeat room > 300000"
    using that by (simp_all add: rs ms deleteTimeout_def)
  from 1 2 3 4 5 6 7 again show ?thesis by blast
qed

theorem reconciliation_tick_witness:
  "reachable playing \<and> cleanupInterval playing \<and>
   map_of (rooms playing) ''ABC123'' = Some (the_room\<lparr>currentState := Some ''playing at 120''\<rparr>) \<and>
   broadcasts MsgStateCleared ''ABC123'' (snd (timer_fire [] 40000 playing)) = 1 \<and>
   map_of (rooms (fst (timer_fire [] 40000 playing))) ''ABC123'' = Some the_room \<and>
   broadcasts MsgStateCleared ''ABC123''
     (snd (timer_fire [] 50000 (fst (timer_fire [] 40000 playing)))) = 0 \<and>
   broadcasts MsgRoomDeleted ''ABC123'' (snd (timer_fire [] 400000 playing)) = 1 \<and>
   map_of (rooms (fst (timer_fire [] 400000 playing))) ''ABC123'' = None \<and>
   map_of (members (fst (timer_fire [] 400000 playing))) ''ABC123'' = None"
proof -
  have r: "reachable playing"
    unfolding playing_def by (rule reachable_run) (rule reachable_two_in_room)
  have c: "cleanupInterval playing"
    and m: "map_of (rooms playing) ''ABC123'' =
      Some (the_room\<lparr>currentState := Some ''playing at 120''\<rparr>)"
    by (simp_all add: playing_eq two_in_room_eq)
  from reconciliation_tick [OF r c m, of 40000] reconciliation_tick [OF r c m, of 400000] r c m
  show ?thesis by (simp add: the_room_def)
qed

section \<open>A fault during the reconciliation scan\<close>

lemma cleanup_room_threw_fault: "cleanup_room F now k rk s = Threw p \<Longrightarrow> k \<in> set F"
  by (auto simp: cleanup_room_def Let_def split: if_splits)

lemma emitted_first_threw:
  "emitted_first out r = Threw p \<Longrightarrow>
   \<exists>p'. r = Threw p' \<and> fst p = fst p' \<and> snd p = out @ snd p'"
  by (cases r) (auto simp: emitted_first_def split: prod.splits)

lemma cleanup_scan_threw_rest:
  assumes "distinct ks" "cleanup_scan F now ks s = Threw p"
  shows "\<exists>pre rid post. ks = pre @ rid # post \<and> rid \<in> set F \<and>
           (\<forall>k\<in>set post. map_of (rooms (fst p)) k = map_of (rooms s) k \<and>
                           map_of (members (fst p)) k = map_of (members s) k \<and>
                           for_room k (snd p) = [])"
  using assms
proof (induction ks arbitrary: s p)
  case Nil
  then show ?case by simp
next
  case (Cons k ks)
  from Cons.prems have d: "distinct ks" and nk: "k \<notin> set ks" by simp_all
  show ?case
  proof (cases "map_of (rooms s) k")
    case None
    with Cons.prems(2) have "cleanup_scan F now ks s = Threw p" by simp
    from Cons.IH [OF d this] obtain pre rid post where
      "ks = pre @ rid # post" "rid \<in> set F"
      "\<forall>k\<in>set post. map_of (rooms (fst p)) k = map_of (rooms s) k \<and>
                           map_of (members (fst p)) k = map_of (members s) k \<and>
                           for_room k (snd p) = []" by blast
    then have "k # ks = (k # pre) @ rid # post" by simp
    with \<open>rid \<in> set F\<close> \<open>\<forall>k\<in>set post. _\<close> show ?thesis by blast
  next
    case (Some rk)
    show ?thesis
    proof (cases "cleanup_room F now k rk s")
      case (Threw q)
      with Some Cons.prems(2) have pq: "p = q" by (simp add: cleanup_scan_threw [OF Some Threw])
      from Threw have kf: "k \<in> set F" by (rule cleanup_room_threw_fault)
      have "map_of (rooms (fst p)) k' = map_of (rooms s) k' \<and>
            map_of (members (fst p)) k' = map_of (members s) k' \<and>
            for_room k' (snd p) = []" if "k' \<in> set ks" for k'
      proof -
        from that nk have ne: "k' \<noteq> k" by auto
        from cleanup_room_other [OF ne, where F = F and now = now and rk = rk and s = s]
        show ?thesis by (simp add: Threw pq)
      qed
      moreover have "k # ks = [] @ k # ks" by simp
      ultimately show ?thesis using kf by blast
    next
      case (Returned q)
      from Cons.prems(2) have "emitted_first (snd q) (cleanup_scan F now ks (fst q)) = Threw p"
        by (simp only: cleanup_scan_returned [OF Some Returned])
      from emitted_first_threw [OF this] obtain p' where
        t: "cleanup_scan F now ks (fst q) = Threw p'" and
        e: "fst p = fst p'" "snd p = snd q @ snd p'" by blast
      from Cons.IH [OF d t] obtain pre rid post where
        ks: "ks = pre @ rid # post" and rf: "rid \<in> set F" and
        rest: "\<forall>k\<in>set post. map_of (rooms (fst p')) k = map_of (rooms (fst q)) k \<and>
                           map_of (members (fst p')) k = map_of (members (fst q)) k \<and>
                           for_room k (snd p') = []" by blast
      have "map_of (rooms (fst p)) k' = map_of (rooms s) k' \<and>
            map_of (members (fst p)) k' = map_of (members s) k' \<and>
            for_room k' (snd p) = []" if "k' \<in> set post" for k'
      proof -
        from that ks nk have ne: "k' \<noteq> k" by auto
        from cleanup_room_other [OF ne, where F = F and now = now and rk = rk and s = s]
        have "map_of (rooms (fst q)) k' = map_of (rooms s) k'"
          "map_of (members (fst q)) k' = map_of (members s) k'" "for_room k' (snd q) = []"
          by (simp_all add: Returned)
        with rest that e show ?thesis by simp
      qed
      moreover from ks have "k # ks = (k # pre) @ rid # post" by simp
      ultimately show ?thesis using rf by blast
    qed
  qed
qed

lemma timer_fire_stopped: "\<not> cleanupInterval s \<Longrightarrow> timer_fire F now s = (s, [])"
  by (simp add: timer_fire_def)

text \<open>
  C8, as stated, fails: both rooms are overdue for deletion, the broadcast for the
  first raises, and the second is neither cleared nor deleted nor sent anything;
  the interval timer is cleared and shutdown has begun, and the next tick does
  nothing.
\<close>

theorem tick_fault_counterexample:
  "map_of (rooms two_rooms) ''DEF456'' = Some second_room \<and>
   currentState second_room \<noteq> None \<and>
   400000 - lastOwnerHeartbeat second_room > 300000 \<and>
   map_of (rooms (fst (step two_rooms (Tick 400000 [''ABC123''])))) ''DEF456'' = Some second_room \<and>
   for_room ''DEF456'' (snd (step two_rooms (Tick 400000 [''ABC123'']))) = [] \<and>
   \<not> cleanupInterval (fst (step two_rooms (Tick 400000 [''ABC123'']))) \<and>
   shuttingDown (fst (step two_rooms (Tick 400000 [''ABC123'']))) \<and>
   step (fst (step two_rooms (Tick 400000 [''ABC123'']))) (Tick 410000 []) =
     (fst (step two_rooms (Tick 400000 [''ABC123''])), [])"
  by (simp add: two_rooms_eq second_room_def the_room_def handler_defs for_room_def)


text \<open>
  C8, amended: when the broadcast for a room raises during a reconciliation tick,
  the scan ends at that room: the rooms after it in the map and their membership
  maps are as before and nothing is sent to them on that tick. The exception
  reaches the process-wide handler, which starts shutdown: the interval timer is
  cleared, so that no later tick does anything, and the process is on its way
  to exit.
\<close>

theorem tick_fault_shutdown:
  assumes "reachable s" and "cleanupInterval s" and "cleanup_callback faults now s = Threw p"
  shows "timer_fire faults now s = (shutdown (fst p), snd p) \<and>
         \<not> cleanupInterval (fst (timer_fire faults now s)) \<and>
         shuttingDown (fst (timer_fire faults now s)) \<and>
         (\<exists>pre rid post. map fst (rooms s) = pre @ rid # post \<and> rid \<in> set faults \<and>
            (\<forall>k\<in>set post.
               map_of (rooms (fst (timer_fire faults now s))) k = map_of (rooms s) k \<and>
               map_of (members (fst (timer_fire faults now s))) k = map_of (members s) k \<and>
               for_room k (snd (timer_fire faults now s)) = [])) \<and>
         (\<forall>faults' now'. timer_fire faults' now' (fst (timer_fire faults now s)) =
            (fst (timer_fire faults now s), []))"
proof -
  from assms(1) have d: "distinct (map fst (rooms s))"
    using reachable_wf unfolding wf_def store_ok_def by blast
  have t: "timer_fire faults now s = (shutdown (fst p), snd p)"
    using assms(2,3) by (cases p) (simp add: timer_fire_def uncaughtException_def)
  have off: "\<not> cleanupInterval (shutdown (fst p))" and down: "shuttingDown (shutdown (fst p))"
    and same: "rooms (shutdown (fst p)) = rooms (fst p)" "members (shutdown (fst p)) = members (fst p)"
    by (simp_all add: shutdown_def destroy_def)
  from cleanup_scan_threw_rest [OF d assms(3) [unfolded cleanup_callback_def]]
  obtain pre rid post where
    "map fst (rooms s) = pre @ rid # post" "rid \<in> set faults"
    "\<forall>k\<in>set post. map_of (rooms (fst p)) k = map_of (rooms s) k \<and>
                    map_of (members (fst p)) k = map_of (members s) k \<and>
                    for_room k (snd p) = []" by blast
  then have "\<exists>pre rid post. map fst (rooms s) = pre @ rid # post \<and> rid \<in> set faults \<and>
            (\<forall>k\<in>set post.
               map_of (rooms (fst (timer_fire faults now s))) k = map_of (rooms s) k \<and>
               map_of (members (fst (timer_fire faults now s))) k = map_of (members s) k \<and>
               for_room k (snd (timer_fire faults now s)) = [])"
    unfolding t fst_conv snd_conv same by blast
  moreover have "timer_fire faults' now' (fst (timer_fire faults now s)) =
            (fst (timer_fire faults now s), [])" for faults' now'
    unfolding t fst_conv by (rule timer_fire_stopped [OF off])
  ultimately show ?thesis using t off down by simp
qed

theorem tick_fault_shutdown_witness:
  "reachable two_rooms \<and> cleanupInterval two_rooms \<and>
   cleanup_callback [''ABC123''] 400000 two_rooms =
     Threw (two_rooms\<lparr>rooms := [(''ABC123'', the_room), (''DEF456'', second_room)]\<rparr>, []) \<and>
   timer_fire [''ABC123''] 400000 two_rooms =
     (two_rooms\<lparr>rooms := [(''ABC123'', the_room), (''DEF456'', second_room)],
                cleanupInterval := False, shuttingDown := True\<rparr>, [])"
proof -
  have r: "reachable two_rooms"
    unfolding two_rooms_def playing_def by (intro reachable_run reachable_two_in_room)
  have c: "cleanupInterval two_rooms"
    by (simp add: two_rooms_eq)
  have t: "cleanup_callback [''ABC123''] 400000 two_rooms =
     Threw (two_rooms\<lparr>rooms := [(''ABC123'', the_room), (''DEF456'', second_room)]\<rparr>, [])"
    by (simp add: two_rooms_eq second_room_def the_room_def handler_defs)
  from tick_fault_shutdown [OF r c t] r c t show ?thesis
    by (simp add: shutdown_def destroy_def)
qed


end
